theory Spec2Isabelle
  imports Main "HOL-Library.Word" "HOL-Library.AList"
begin

section \<open>Data model\<close>

text \<open>
  The orchestrator \<open>RabbitService\<close> of \<open>pkg/tcr/rabbitservice.go\<close> and the message
  types of the second source file. Go's \<open>uint64\<close> is a 64-bit word (addition wraps), a
  \<open>[]byte\<close> is a list of 8-bit words, a \<open>time.Duration\<close> is a number of nanoseconds.
\<close>

type_synonym u64 = "64 word"
type_synonym bytes = "8 word list"
type_synonym Duration = int

definition Millisecond :: Duration where
  "Millisecond = 1000000"


text \<open>
  A Go \<open>error\<close> value. Errors made in the files at hand come from \<open>errors.New\<close> and
  \<open>fmt.Errorf\<close> and carry their message; an error handed back by a collaborator (the
  payload pipeline, a constructor, a consumer, the AMQP channel) is a different object,
  whatever its message says, hence a constructor of its own.
\<close>

datatype error =
    ErrorsNew string
  | FmtErrorf string
  | FromCollaborator string

text \<open>
  A received message. \<open>amqpChan\<close> is a pointer to the channel the message came in on
  (\<open>None\<close> is \<open>nil\<close>); \<open>Headers\<close>, \<open>Timestamp\<close> and \<open>AMQPDelivery\<close>, which no operation
  below reads, are left out.
\<close>

type_synonym Channel = nat

record ReceivedMessage =
  IsAckable :: bool
  Body :: bytes
  deliveryTag :: u64
  amqpChan :: "Channel option"
  CorrelationId :: string

record Envelope =
  Exchange :: string
  RoutingKey :: string
  ContentType :: string
  Mandatory :: bool
  Immediate :: bool
  DeliveryMode :: "8 word"

record Letter =
  LetterID :: u64
  Body :: bytes
  Envelope :: Envelope

record PublishReceipt =
  LetterID :: u64
  FailedLetter :: "Letter option"
  Success :: bool
  Error :: "error option"

text \<open>
  Modelled from the spec: the configuration types and \<open>Consumer\<close>, which are declared
  outside the files at hand. \<open>PoolConfig\<close>, \<open>ConsumerConfig\<close> and \<open>CompressionConfig\<close> are
  only passed on by the orchestrator and stay opaque; of \<open>EncryptionConfig\<close> it reads
  \<open>Enabled\<close>, \<open>TimeConsideration\<close>, \<open>MemoryMultiplier\<close> and \<open>Threads\<close> and writes
  \<open>Hashkey\<close>; of a \<open>Consumer\<close> it reads and writes \<open>ConsumerName\<close>.
\<close>

type_synonym PoolConfig = string
type_synonym ConsumerConfig = string
type_synonym CompressionConfig = string

record EncryptionConfig =
  Enabled :: bool
  Hashkey :: bytes
  TimeConsideration :: nat
  MemoryMultiplier :: nat
  Threads :: nat

record Consumer =
  ConsumerName :: string

record RabbitSeasoning =
  PoolConfig :: PoolConfig
  ConsumerConfigs :: "(string \<times> ConsumerConfig) list"
  CompressionConfig :: CompressionConfig
  EncryptionConfig :: EncryptionConfig

text \<open>
  The service. A Go map is an association list (the order of the list stands for the
  unspecified order in which \<open>range\<close> visits the map). The collaborators behind
  \<open>ConnectionPool\<close>, \<open>Topologer\<close> and \<open>Publisher\<close> and the channels \<open>centralErr\<close> and
  \<open>shutdownSignal\<close> are not state of the model: every call to them and every send on
  them is an event of the trace an operation returns.
\<close>

record RabbitService =
  Config :: RabbitSeasoning
  encryptionConfigured :: bool
  consumers :: "(string \<times> Consumer) list"
  shutdown :: bool
  letterCount :: u64
  monitorSleepInterval :: Duration

text \<open>
  The value given to \<open>Publish\<close> has Go's type \<open>interface{}\<close>. The orchestrator compares
  it with \<open>nil\<close> and hands it to the payload pipeline, nothing else; here it is a byte
  string. A receipt handler is a Go function value, opaque here and named by a number:
  calling it is an event.
\<close>

type_synonym goValue = bytes

type_synonym ReceiptHandler = nat

datatype goroutine =
    GoCollectConsumerErrors
  | GoCollectAutoPublisherErrors
  | GoMonitorForShutdown
  | GoInvokeProcessPublishReceipts ReceiptHandler
  | GoProcessPublishReceipts

text \<open>
  What an operation does to the outside, in program order. \<open>EvSendCentralErr\<close> is a
  send on \<open>centralErr\<close> that a receiver has taken.
\<close>

datatype event =
    EvNewConnectionPool PoolConfig
  | EvNewPublisherWithConfig RabbitSeasoning
  | EvNewTopologer
  | EvNewConsumerFromConfig ConsumerConfig
  | EvGetHashWithArgon string string nat nat nat nat
  | EvGo goroutine
  | EvStartAutoPublishing
  | EvCreatePayload goValue CompressionConfig EncryptionConfig
  | EvCreateWrappedPayload goValue u64 string CompressionConfig EncryptionConfig
  | EvPublish Letter
  | EvPublishWithConfirmation Letter Duration
  | EvQueueLetter Letter
  | EvStopAutoPublish
  | EvSendShutdownSignal bool
  | EvSendCentralErr error
  | EvSleep Duration
  | EvStopConsuming Consumer bool bool
  | EvConnectionPoolShutdown
  | EvCallHandler ReceiptHandler PublishReceipt

text \<open>
  The collaborators' operations are declared outside the files at hand; their answers
  are parameters. A constructor or a stop answers with \<open>Some msg\<close> (or \<open>Inl msg\<close>) when
  it fails with an error of that message.
\<close>

record pipeline =
  CreatePayload :: "goValue \<Rightarrow> CompressionConfig \<Rightarrow> EncryptionConfig \<Rightarrow> string + bytes"
  CreateWrappedPayload ::
    "goValue \<Rightarrow> u64 \<Rightarrow> string \<Rightarrow> CompressionConfig \<Rightarrow> EncryptionConfig \<Rightarrow> string + bytes"

record collaborators =
  NewConnectionPool :: "PoolConfig \<Rightarrow> string option"
  NewPublisherWithConfig :: "RabbitSeasoning \<Rightarrow> string option"
  NewConsumerFromConfig :: "ConsumerConfig \<Rightarrow> string + Consumer"
  Hostname :: "string + string"
  GetHashWithArgon :: "string \<Rightarrow> string \<Rightarrow> nat \<Rightarrow> nat \<Rightarrow> nat \<Rightarrow> nat \<Rightarrow> bytes"
  StopConsuming :: "Consumer \<Rightarrow> bool \<Rightarrow> bool \<Rightarrow> string option"

section \<open>Publish and PublishWithConfirmation\<close>

text \<open>The two atomic operations on \<open>rs.letterCount\<close>.\<close>

definition atomic_LoadUint64 :: "u64 \<Rightarrow> u64" where
  "atomic_LoadUint64 addr = addr"

definition atomic_AddUint64 :: "u64 \<Rightarrow> u64 \<Rightarrow> u64" where
  "atomic_AddUint64 addr delta = addr + delta"

text \<open>The two errors of the argument check.\<close>

definition invalidPublish :: error where
  "invalidPublish =
     ErrorsNew ''can't have a nil input or an empty exchangename with empty routing key''"

definition invalidPublishWithConfirmation :: error where
  "invalidPublishWithConfirmation =
     ErrorsNew ''can't have a nil body or an empty exchangename with empty routing key''"

text \<open>The envelope both operations build.\<close>

definition newEnvelope :: "string \<Rightarrow> string \<Rightarrow> Envelope" where
  "newEnvelope exchangeName routingKey =
     \<lparr>Exchange = exchangeName, RoutingKey = routingKey, ContentType = ''application/json'',
      Mandatory = False, Immediate = False, DeliveryMode = 2\<rparr>"

text \<open>
  The payload construction both operations share: the call of the pipeline, as an event,
  and its answer.
\<close>

definition createData ::
  "pipeline \<Rightarrow> goValue \<Rightarrow> u64 \<Rightarrow> bool \<Rightarrow> string \<Rightarrow> RabbitService \<Rightarrow>
     event \<times> (string + bytes)" where
  "createData P x currentCount wrapPayload metadata rs =
     (if wrapPayload then
        (EvCreateWrappedPayload x currentCount metadata
           (CompressionConfig (Config rs)) (EncryptionConfig (Config rs)),
         CreateWrappedPayload P x currentCount metadata
           (CompressionConfig (Config rs)) (EncryptionConfig (Config rs)))
      else
        (EvCreatePayload x (CompressionConfig (Config rs)) (EncryptionConfig (Config rs)),
         CreatePayload P x (CompressionConfig (Config rs)) (EncryptionConfig (Config rs))))"

text \<open>
  \<open>Publish\<close>: the trace, the returned error (\<open>None\<close> is \<open>nil\<close>) and the service after
  the call. \<open>input == nil\<close> is \<open>input = None\<close>.
\<close>

definition Publish ::
  "pipeline \<Rightarrow> goValue option \<Rightarrow> string \<Rightarrow> string \<Rightarrow> bool \<Rightarrow> string \<Rightarrow> RabbitService \<Rightarrow>
     event list \<times> error option \<times> RabbitService" where
  "Publish P input exchangeName routingKey wrapPayload metadata rs =
     (case input of
        None \<Rightarrow>
          ([], Some invalidPublish, rs)
      | Some x \<Rightarrow>
          if exchangeName = '''' \<and> routingKey = '''' then
            ([], Some invalidPublish, rs)
          else
            let currentCount = atomic_LoadUint64 (letterCount rs);
                rs' = rs\<lparr>letterCount := atomic_AddUint64 (letterCount rs) 1\<rparr>;
                (call, answer) = createData P x currentCount wrapPayload metadata rs'
            in (case answer of
                  Inl err \<Rightarrow> ([call], Some (FromCollaborator err), rs')
                | Inr data \<Rightarrow>
                    ([call,
                      EvPublish \<lparr>Letter.LetterID = currentCount, Body = data,
                                 Envelope = newEnvelope exchangeName routingKey\<rparr>],
                     None, rs')))"

definition PublishWithConfirmation ::
  "pipeline \<Rightarrow> goValue option \<Rightarrow> string \<Rightarrow> string \<Rightarrow> bool \<Rightarrow> string \<Rightarrow> RabbitService \<Rightarrow>
     event list \<times> error option \<times> RabbitService" where
  "PublishWithConfirmation P input exchangeName routingKey wrapPayload metadata rs =
     (case input of
        None \<Rightarrow>
          ([], Some invalidPublishWithConfirmation, rs)
      | Some x \<Rightarrow>
          if exchangeName = '''' \<and> routingKey = '''' then
            ([], Some invalidPublishWithConfirmation, rs)
          else
            let currentCount = atomic_LoadUint64 (letterCount rs);
                rs' = rs\<lparr>letterCount := atomic_AddUint64 (letterCount rs) 1\<rparr>;
                (call, answer) = createData P x currentCount wrapPayload metadata rs'
            in (case answer of
                  Inl err \<Rightarrow> ([call], Some (FromCollaborator err), rs')
                | Inr data \<Rightarrow>
                    ([call,
                      EvPublishWithConfirmation
                        \<lparr>Letter.LetterID = currentCount, Body = data,
                         Envelope = newEnvelope exchangeName routingKey\<rparr>
                        (300 * Millisecond)],
                     None, rs')))"

text \<open>
  What both operations do once \<open>currentCount\<close> is reserved (lines 172 to 200 and 130 to
  159): the payload is built and, if that succeeds, the letter handed to the publisher.
\<close>

definition handOver ::
  "pipeline \<Rightarrow> bool \<Rightarrow> goValue \<Rightarrow> string \<Rightarrow> string \<Rightarrow> bool \<Rightarrow> string \<Rightarrow> u64 \<Rightarrow> RabbitService \<Rightarrow>
     event list \<times> error option" where
  "handOver P withConfirmation x exchangeName routingKey wrapPayload metadata currentCount rs =
     (let (call, answer) = createData P x currentCount wrapPayload metadata rs
      in (case answer of
            Inl err \<Rightarrow> ([call], Some (FromCollaborator err))
          | Inr data \<Rightarrow>
              ([call,
                if withConfirmation
                then EvPublishWithConfirmation
                       \<lparr>Letter.LetterID = currentCount, Body = data,
                        Envelope = newEnvelope exchangeName routingKey\<rparr>
                       (300 * Millisecond)
                else EvPublish \<lparr>Letter.LetterID = currentCount, Body = data,
                                Envelope = newEnvelope exchangeName routingKey\<rparr>],
               None)))"

section \<open>Construction\<close>

text \<open>
  \<open>createConsumers\<close> ranges over the configured consumers. A failing constructor ends
  the loop with its error; a failing \<open>os.Hostname\<close> leaves the consumer's name as it is.
\<close>

fun createConsumers ::
  "collaborators \<Rightarrow> (string \<times> ConsumerConfig) list \<Rightarrow> RabbitService \<Rightarrow>
     event list \<times> error option \<times> RabbitService" where
  "createConsumers env [] rs = ([], None, rs)"
| "createConsumers env ((consumerName, consumerConfig) # rest) rs =
     (case NewConsumerFromConfig env consumerConfig of
        Inl err \<Rightarrow> ([EvNewConsumerFromConfig consumerConfig], Some (FromCollaborator err), rs)
      | Inr consumer \<Rightarrow>
          let consumer' =
                (case Hostname env of
                   Inr hostName \<Rightarrow>
                     consumer\<lparr>ConsumerName := hostName @ ''-'' @ ConsumerName consumer\<rparr>
                 | Inl _ \<Rightarrow> consumer);
              rs' = rs\<lparr>consumers := AList.update consumerName consumer' (consumers rs)\<rparr>;
              (evs, err, rs'') = createConsumers env rest rs'
          in (EvNewConsumerFromConfig consumerConfig # evs, err, rs''))"

text \<open>
  The key derivation of \<open>NewRabbitService\<close>: the call of \<open>GetHashWithArgon\<close>, if any, and
  the service with \<open>Hashkey\<close> and \<open>encryptionConfigured\<close> set.
\<close>

definition createHashKey ::
  "collaborators \<Rightarrow> string \<Rightarrow> string \<Rightarrow> RabbitService \<Rightarrow> event list \<times> RabbitService" where
  "createHashKey env passphrase salt rs =
     (let enc = EncryptionConfig (Config rs) in
      if Enabled enc \<and> length passphrase > 0 \<and> length salt > 0 then
        ([EvGetHashWithArgon passphrase salt
            (TimeConsideration enc) (MemoryMultiplier enc) (Threads enc) 32],
         rs\<lparr>Config := (Config rs)\<lparr>EncryptionConfig :=
                 enc\<lparr>Hashkey := GetHashWithArgon env passphrase salt
                   (TimeConsideration enc) (MemoryMultiplier enc) (Threads enc) 32\<rparr>\<rparr>,
            encryptionConfigured := True\<rparr>)
      else ([], rs))"

text \<open>The background activities and the publisher's loop, started last.\<close>

definition startMonitors :: "ReceiptHandler option \<Rightarrow> event list" where
  "startMonitors processPublishReceipts =
     [EvGo GoCollectConsumerErrors, EvGo GoCollectAutoPublisherErrors, EvGo GoMonitorForShutdown,
      (case processPublishReceipts of
         Some handler \<Rightarrow> EvGo (GoInvokeProcessPublishReceipts handler)
       | None \<Rightarrow> EvGo GoProcessPublishReceipts),
      EvStartAutoPublishing]"

definition NewRabbitService ::
  "collaborators \<Rightarrow> RabbitSeasoning \<Rightarrow> string \<Rightarrow> string \<Rightarrow> ReceiptHandler option \<Rightarrow>
     event list \<times> (error + RabbitService)" where
  "NewRabbitService env config passphrase salt processPublishReceipts =
     (case NewConnectionPool env (PoolConfig config) of
        Some err \<Rightarrow> ([EvNewConnectionPool (PoolConfig config)], Inl (FromCollaborator err))
      | None \<Rightarrow>
     (case NewPublisherWithConfig env config of
        Some err \<Rightarrow>
          ([EvNewConnectionPool (PoolConfig config), EvNewPublisherWithConfig config],
           Inl (FromCollaborator err))
      | None \<Rightarrow>
          let rs = \<lparr>Config = config, encryptionConfigured = False, consumers = [],
                    shutdown = False, letterCount = 0,
                    monitorSleepInterval = 200 * Millisecond\<rparr>;
              built = [EvNewConnectionPool (PoolConfig config), EvNewPublisherWithConfig config,
                       EvNewTopologer];
              (evs1, err, rs1) = createConsumers env (ConsumerConfigs config) rs
          in (case err of
                Some e \<Rightarrow> (built @ evs1, Inl e)
              | None \<Rightarrow>
                  let (evs2, rs2) = createHashKey env passphrase salt rs1
                  in (built @ evs1 @ evs2 @ startMonitors processPublishReceipts, Inr rs2))))"

section \<open>Sending on the central error stream\<close>

text \<open>
  \<open>centralErr\<close> is made without a buffer (\<open>make(chan error)\<close>): a send on it returns
  when a receiver takes the value and waits for ever when none does. An operation that
  sends on it is given \<open>receivers\<close>, the number of values that are still taken from
  \<open>CentralErr()\<close> for it, and returns, with its trace, the number that is left, or \<open>None\<close>
  when a send of it waits for ever; its trace is then what it did before that send.
\<close>

definition sendCentralErr :: "error \<Rightarrow> nat \<Rightarrow> event list \<times> nat option" where
  "sendCentralErr err receivers =
     (case receivers of
        0 \<Rightarrow> ([], None)
      | Suc left \<Rightarrow> ([EvSendCentralErr err], Some left))"

section \<open>Shutdown\<close>

text \<open>
  The loop over \<open>rs.consumers\<close> in \<open>Shutdown\<close>: a consumer is stopped with both flags
  set, and an error of the stop is sent to \<open>centralErr\<close> before the next consumer's turn.
\<close>

fun stopConsumersLoop ::
  "collaborators \<Rightarrow> (string \<times> Consumer) list \<Rightarrow> nat \<Rightarrow> event list \<times> nat option" where
  "stopConsumersLoop env [] receivers = ([], Some receivers)"
| "stopConsumersLoop env ((name, consumer) # rest) receivers =
     (case StopConsuming env consumer True True of
        None \<Rightarrow>
          (let (evs, r) = stopConsumersLoop env rest receivers
           in (EvStopConsuming consumer True True # evs, r))
      | Some err \<Rightarrow>
          (case sendCentralErr (FromCollaborator err) receivers of
             (sent, None) \<Rightarrow> (EvStopConsuming consumer True True # sent, None)
           | (sent, Some left) \<Rightarrow>
               (let (evs, r) = stopConsumersLoop env rest left
                in (EvStopConsuming consumer True True # sent @ evs, r))))"


text \<open>The errors of the stops that fail, in the order of the consumers.\<close>

definition stopFailures :: "collaborators \<Rightarrow> (string \<times> Consumer) list \<Rightarrow> error list" where
  "stopFailures env cs =
     concat (map (\<lambda>(name, consumer).
       case StopConsuming env consumer True True of
         Some err \<Rightarrow> [FromCollaborator err]
       | None \<Rightarrow> []) cs)"

text \<open>The trace of the loop over the consumers when every send of it is received.\<close>

definition stopsAndReports :: "collaborators \<Rightarrow> (string \<times> Consumer) list \<Rightarrow> event list" where
  "stopsAndReports env cs =
     concat (map (\<lambda>(name, consumer).
       EvStopConsuming consumer True True
         # (case StopConsuming env consumer True True of
              Some err \<Rightarrow> [EvSendCentralErr (FromCollaborator err)]
            | None \<Rightarrow> [])) cs)"

section \<open>Publish receipts\<close>

text \<open>\<open>%d\<close> of \<open>fmt.Errorf\<close>: an unsigned number in decimal.\<close>

fun digits :: "nat \<Rightarrow> string" where
  "digits n =
     (if n < 10 then [''0123456789'' ! n]
      else digits (n div 10) @ [''0123456789'' ! (n mod 10)])"

declare digits.simps [simp del]

text \<open>
  What one turn of a receipt loop finds: the shutdown flag set (the loop breaks), a
  receipt on \<open>rs.Publisher.PublishReceipts()\<close>, or nothing (the \<open>default\<close> branch). The
  flag is written by another goroutine and the receipts come from the publisher, so a
  run of a loop is driven by the list of what its turns find; a list that ends before
  the flag is seen is a loop still running.
\<close>

datatype turn =
    ShutdownSeen
  | Received PublishReceipt
  | NothingReady

text \<open>
  The default policy's reaction to one receipt (the body of the \<open>case\<close>): the error is
  sent first, and the letter is queued once the send has returned.
\<close>

definition retryOrReport :: "PublishReceipt \<Rightarrow> nat \<Rightarrow> event list \<times> nat option" where
  "retryOrReport receipt receivers =
     (if \<not> Success receipt then
        (case FailedLetter receipt of
           Some letter \<Rightarrow>
             (case sendCentralErr (FmtErrorf (''failed to publish letter ''
                     @ digits (unat (PublishReceipt.LetterID receipt)) @ ''... retrying''))
                   receivers of
                (sent, None) \<Rightarrow> (sent, None)
              | (sent, Some left) \<Rightarrow> (sent @ [EvQueueLetter letter], Some left))
         | None \<Rightarrow>
             sendCentralErr (FmtErrorf (''failed to publish a letter ''
                @ digits (unat (PublishReceipt.LetterID receipt))
                @ '' and unable to retry as a copy of the letter was not received''))
               receivers)
      else ([], Some receivers))"

fun processPublishReceipts ::
  "turn list \<Rightarrow> RabbitService \<Rightarrow> nat \<Rightarrow> event list \<times> nat option" where
  "processPublishReceipts [] rs receivers = ([], Some receivers)"
| "processPublishReceipts (ShutdownSeen # turns) rs receivers = ([], Some receivers)"
| "processPublishReceipts (Received receipt # turns) rs receivers =
     (case retryOrReport receipt receivers of
        (evs, None) \<Rightarrow> (evs, None)
      | (evs, Some left) \<Rightarrow>
          (let (evs', r) = processPublishReceipts turns rs left in (evs @ evs', r)))"
| "processPublishReceipts (NothingReady # turns) rs receivers =
     (let (evs, r) = processPublishReceipts turns rs receivers
      in (EvSleep (monitorSleepInterval rs) # evs, r))"

fun invokeProcessPublishReceipts :: "ReceiptHandler \<Rightarrow> turn list \<Rightarrow> RabbitService \<Rightarrow> event list" where
  "invokeProcessPublishReceipts processReceipts [] rs = []"
| "invokeProcessPublishReceipts processReceipts (ShutdownSeen # turns) rs = []"
| "invokeProcessPublishReceipts processReceipts (Received receipt # turns) rs =
     EvCallHandler processReceipts receipt # invokeProcessPublishReceipts processReceipts turns rs"
| "invokeProcessPublishReceipts processReceipts (NothingReady # turns) rs =
     EvSleep (monitorSleepInterval rs) # invokeProcessPublishReceipts processReceipts turns rs"

text \<open>
  The loop that the goroutine started for a handler runs. (The default loop sends on
  \<open>centralErr\<close> and has its receivers to be told: \<open>processPublishReceipts\<close> above.)
\<close>

fun runReceiptLoop :: "goroutine \<Rightarrow> turn list \<Rightarrow> RabbitService \<Rightarrow> event list" where
  "runReceiptLoop (GoInvokeProcessPublishReceipts handler) turns rs =
     invokeProcessPublishReceipts handler turns rs"

section \<open>Letters handed to the publisher\<close>

fun handedLetter :: "event \<Rightarrow> Letter option" where
  "handedLetter (EvPublish letter) = Some letter"
| "handedLetter (EvPublishWithConfirmation letter timeout) = Some letter"
| "handedLetter (EvQueueLetter letter) = Some letter"
| "handedLetter _ = None"

definition handedLetters :: "event list \<Rightarrow> Letter list" where
  "handedLetters evs = List.map_filter handedLetter evs"

text \<open>What else a trace holds, kind by kind and in order.\<close>

fun centralErrOf :: "event \<Rightarrow> error list" where
  "centralErrOf (EvSendCentralErr err) = [err]"
| "centralErrOf _ = []"

definition centralErrs :: "event list \<Rightarrow> error list" where
  "centralErrs evs = concat (map centralErrOf evs)"

fun requeueOf :: "event \<Rightarrow> Letter list" where
  "requeueOf (EvQueueLetter letter) = [letter]"
| "requeueOf _ = []"

definition requeues :: "event list \<Rightarrow> Letter list" where
  "requeues evs = concat (map requeueOf evs)"

fun handlerCallOf :: "event \<Rightarrow> (ReceiptHandler \<times> PublishReceipt) list" where
  "handlerCallOf (EvCallHandler handler receipt) = [(handler, receipt)]"
| "handlerCallOf _ = []"

definition handlerCalls :: "event list \<Rightarrow> (ReceiptHandler \<times> PublishReceipt) list" where
  "handlerCalls evs = concat (map handlerCallOf evs)"

fun stopOf :: "event \<Rightarrow> (Consumer \<times> bool \<times> bool) list" where
  "stopOf (EvStopConsuming consumer flush wait) = [(consumer, flush, wait)]"
| "stopOf _ = []"

definition stops :: "event list \<Rightarrow> (Consumer \<times> bool \<times> bool) list" where
  "stops evs = concat (map stopOf evs)"

fun derivationOf :: "event \<Rightarrow> (string \<times> string \<times> nat \<times> nat \<times> nat \<times> nat) list" where
  "derivationOf (EvGetHashWithArgon passphrase salt time memory threads keyLen) =
     [(passphrase, salt, time, memory, threads, keyLen)]"
| "derivationOf _ = []"

definition derivations :: "event list \<Rightarrow> (string \<times> string \<times> nat \<times> nat \<times> nat \<times> nat) list" where
  "derivations evs = concat (map derivationOf evs)"

fun receiptLoopOf :: "event \<Rightarrow> goroutine list" where
  "receiptLoopOf (EvGo (GoInvokeProcessPublishReceipts handler)) =
     [GoInvokeProcessPublishReceipts handler]"
| "receiptLoopOf (EvGo GoProcessPublishReceipts) = [GoProcessPublishReceipts]"
| "receiptLoopOf _ = []"

definition receiptLoops :: "event list \<Rightarrow> goroutine list" where
  "receiptLoops evs = concat (map receiptLoopOf evs)"

text \<open>The encryption configuration each call of the payload pipeline is given.\<close>

fun pipelineEncryptionOf :: "event \<Rightarrow> EncryptionConfig list" where
  "pipelineEncryptionOf (EvCreatePayload x compression encryption) = [encryption]"
| "pipelineEncryptionOf (EvCreateWrappedPayload x letterID metadata compression encryption) =
     [encryption]"
| "pipelineEncryptionOf _ = []"

definition pipelineEncryption :: "event list \<Rightarrow> EncryptionConfig list" where
  "pipelineEncryption evs = concat (map pipelineEncryptionOf evs)"

text \<open>The receipts a receipt loop takes from the publisher before it sees the flag.\<close>

fun drained :: "turn list \<Rightarrow> PublishReceipt list" where
  "drained [] = []"
| "drained (ShutdownSeen # turns) = []"
| "drained (Received receipt # turns) = receipt # drained turns"
| "drained (NothingReady # turns) = drained turns"

text \<open>A caller that makes one call after the other.\<close>

datatype publishCall =
    CallPublish "goValue option" string string bool string
  | CallPublishWithConfirmation "goValue option" string string bool string

fun doCall ::
  "pipeline \<Rightarrow> publishCall \<Rightarrow> RabbitService \<Rightarrow>
     event list \<times> error option \<times> RabbitService" where
  "doCall P (CallPublish input exchangeName routingKey wrapPayload metadata) rs =
     Publish P input exchangeName routingKey wrapPayload metadata rs"
| "doCall P (CallPublishWithConfirmation input exchangeName routingKey wrapPayload metadata) rs =
     PublishWithConfirmation P input exchangeName routingKey wrapPayload metadata rs"

fun doCalls ::
  "pipeline \<Rightarrow> publishCall list \<Rightarrow> RabbitService \<Rightarrow> event list \<times> RabbitService" where
  "doCalls P [] rs = ([], rs)"
| "doCalls P (c # cs) rs =
     (let (evs, err, rs') = doCall P c rs;
          (evs', rs'') = doCalls P cs rs'
      in (evs @ evs', rs''))"

section \<open>Concurrent callers\<close>

text \<open>
  Between its two atomic operations a call of \<open>Publish\<close> or \<open>PublishWithConfirmation\<close>
  can be overtaken. A caller is either about to load the counter or holds the loaded
  \<open>currentCount\<close> and is about to add; \<open>assigned\<close> are the LetterIDs its calls got, oldest
  first. A schedule names, step by step, the caller whose next atomic operation runs.
\<close>

datatype position =
    AtLoad
  | AtAdd u64

record caller =
  position :: position
  assigned :: "u64 list"

definition stepCaller :: "nat \<Rightarrow> RabbitService \<times> caller list \<Rightarrow> RabbitService \<times> caller list" where
  "stepCaller i st =
     (let (rs, cs) = st in
      if i < length cs then
        (case position (cs ! i) of
           AtLoad \<Rightarrow>
             (rs, cs[i := (cs ! i)\<lparr>position := AtAdd (atomic_LoadUint64 (letterCount rs))\<rparr>])
         | AtAdd currentCount \<Rightarrow>
             (rs\<lparr>letterCount := atomic_AddUint64 (letterCount rs) 1\<rparr>,
              cs[i := \<lparr>position = AtLoad, assigned = assigned (cs ! i) @ [currentCount]\<rparr>]))
      else st)"

definition interleave ::
  "nat list \<Rightarrow> RabbitService \<times> caller list \<Rightarrow> RabbitService \<times> caller list" where
  "interleave schedule st = foldl (\<lambda>s i. stepCaller i s) st schedule"

text \<open>
  What every interleaving keeps: the LetterIDs a caller has got are increasing and below
  the counter, and a loaded \<open>currentCount\<close> is at most the counter and above the
  caller's earlier LetterIDs.
\<close>

definition callersOrdered :: "RabbitService \<times> caller list \<Rightarrow> bool" where
  "callersOrdered st =
     (\<forall>c \<in> set (snd st).
        sorted_wrt (<) (map unat (assigned c))
        \<and> (\<forall>w \<in> set (assigned c). unat w < unat (letterCount (fst st)))
        \<and> (\<forall>v. position c = AtAdd v \<longrightarrow>
              unat v \<le> unat (letterCount (fst st))
              \<and> (\<forall>w \<in> set (assigned c). unat w < unat v)))"

section \<open>Acknowledging a received message\<close>

text \<open>
  The calls on the AMQP channel, and the three operations: the calls made, the returned
  error, and the message after the call (the receiver is a pointer). What the channel
  answers to a call is a parameter.
\<close>

datatype channelCall =
    ChanAck Channel u64 bool
  | ChanNack Channel u64 bool bool
  | ChanReject Channel u64 bool

definition Acknowledge ::
  "(channelCall \<Rightarrow> string option) \<Rightarrow> ReceivedMessage \<Rightarrow>
     channelCall list \<times> error option \<times> ReceivedMessage" where
  "Acknowledge broker msg =
     (if \<not> IsAckable msg then
        ([], Some (ErrorsNew ''can't acknowledge, not an ackable message''), msg)
      else
        (case amqpChan msg of
           None \<Rightarrow> ([], Some (ErrorsNew ''can't acknowledge, internal channel is nil''), msg)
         | Some chan \<Rightarrow>
             ([ChanAck chan (deliveryTag msg) False],
              map_option FromCollaborator (broker (ChanAck chan (deliveryTag msg) False)), msg)))"

definition Nack ::
  "(channelCall \<Rightarrow> string option) \<Rightarrow> bool \<Rightarrow> ReceivedMessage \<Rightarrow>
     channelCall list \<times> error option \<times> ReceivedMessage" where
  "Nack broker requeue msg =
     (if \<not> IsAckable msg then
        ([], Some (ErrorsNew ''can't nack, not an ackable message''), msg)
      else
        (case amqpChan msg of
           None \<Rightarrow> ([], Some (ErrorsNew ''can't nack, internal channel is nil''), msg)
         | Some chan \<Rightarrow>
             ([ChanNack chan (deliveryTag msg) False requeue],
              map_option FromCollaborator (broker (ChanNack chan (deliveryTag msg) False requeue)),
              msg)))"

definition Reject ::
  "(channelCall \<Rightarrow> string option) \<Rightarrow> bool \<Rightarrow> ReceivedMessage \<Rightarrow>
     channelCall list \<times> error option \<times> ReceivedMessage" where
  "Reject broker requeue msg =
     (if \<not> IsAckable msg then
        ([], Some (ErrorsNew ''can't reject, not an ackable message''), msg)
      else
        (case amqpChan msg of
           None \<Rightarrow> ([], Some (ErrorsNew ''can't reject, internal channel is nil''), msg)
         | Some chan \<Rightarrow>
             ([ChanReject chan (deliveryTag msg) requeue],
              map_option FromCollaborator (broker (ChanReject chan (deliveryTag msg) requeue)),
              msg)))"

section \<open>Example values\<close>

text \<open>
  A pipeline that hands the input back as the payload, one that always fails, and a
  service whose counter stands at 5.
\<close>

definition echoPipeline :: "pipeline" where
  "echoPipeline =
     \<lparr>CreatePayload = (\<lambda>x compression encryption. Inr x),
      CreateWrappedPayload = (\<lambda>x letterID metadata compression encryption. Inr x)\<rparr>"

definition failingPipeline :: "pipeline" where
  "failingPipeline =
     \<lparr>CreatePayload = (\<lambda>x compression encryption. Inl ''marshal failed''),
      CreateWrappedPayload = (\<lambda>x letterID metadata compression encryption. Inl ''marshal failed'')\<rparr>"

text \<open>A pipeline that cannot serialise the empty value and hands every other one back.\<close>

definition strictPipeline :: pipeline where
  "strictPipeline =
     \<lparr>CreatePayload = (\<lambda>x compression encryption.
        if x = [] then Inl ''marshal failed'' else Inr x),
      CreateWrappedPayload = (\<lambda>x letterID metadata compression encryption.
        if x = [] then Inl ''marshal failed'' else Inr x)\<rparr>"

definition exampleConfig :: RabbitSeasoning where
  "exampleConfig =
     \<lparr>PoolConfig = ''pool'',
      ConsumerConfigs = [(''first'', ''queue-1''), (''second'', ''queue-2'')],
      CompressionConfig = ''gzip'',
      EncryptionConfig =
        \<lparr>Enabled = True, Hashkey = [], TimeConsideration = 1, MemoryMultiplier = 64,
         Threads = 2\<rparr>\<rparr>"

definition exampleService :: RabbitService where
  "exampleService =
     \<lparr>Config = exampleConfig, encryptionConfigured = False,
      consumers = [(''first'', \<lparr>ConsumerName = ''host-queue-1''\<rparr>),
                   (''second'', \<lparr>ConsumerName = ''host-queue-2''\<rparr>)],
      shutdown = False, letterCount = 5, monitorSleepInterval = 200 * Millisecond\<rparr>"

text \<open>
  Collaborators that construct without error; stopping the consumer of \<open>queue-1\<close>
  fails.
\<close>

definition exampleEnv :: collaborators where
  "exampleEnv =
     \<lparr>NewConnectionPool = (\<lambda>poolConfig. None),
      NewPublisherWithConfig = (\<lambda>config. None),
      NewConsumerFromConfig = (\<lambda>consumerConfig. Inr \<lparr>ConsumerName = consumerConfig\<rparr>),
      Hostname = Inr ''host'',
      GetHashWithArgon = (\<lambda>passphrase salt time memory threads keyLen. replicate keyLen 7),
      StopConsuming = (\<lambda>consumer flush wait.
         if ConsumerName consumer = ''host-queue-1'' then Some ''stop failed'' else None)\<rparr>"

section \<open>Basic facts\<close>

lemma handedLetters_Nil [simp]: "handedLetters [] = []"
  by (simp add: handedLetters_def List.map_filter_def)

lemma handedLetters_Cons [simp]:
  "handedLetters (e # evs) =
     (case handedLetter e of None \<Rightarrow> handedLetters evs | Some l \<Rightarrow> l # handedLetters evs)"
  by (simp add: handedLetters_def List.map_filter_def split: option.splits)

lemma handedLetters_append [simp]:
  "handedLetters (xs @ ys) = handedLetters xs @ handedLetters ys"
  by (simp add: handedLetters_def List.map_filter_def)

lemma handedLetter_createData [simp]:
  "handedLetter (fst (createData P x c w m rs)) = None"
  by (simp add: createData_def)

lemma Publish_valid:
  assumes "\<not> (exchangeName = '''' \<and> routingKey = '''')"
  shows "Publish P (Some x) exchangeName routingKey wrapPayload metadata rs =
     (let rs' = rs\<lparr>letterCount := letterCount rs + 1\<rparr>;
          call = fst (createData P x (letterCount rs) wrapPayload metadata rs)
      in case snd (createData P x (letterCount rs) wrapPayload metadata rs
                     :: event \<times> (string + bytes)) of
           Inl err \<Rightarrow> ([call], Some (FromCollaborator err), rs')
         | Inr data \<Rightarrow>
             ([call, EvPublish \<lparr>Letter.LetterID = letterCount rs, Body = data,
                       Envelope = newEnvelope exchangeName routingKey\<rparr>], None, rs'))"
  using assms
  by (auto simp: Publish_def Let_def createData_def atomic_LoadUint64_def atomic_AddUint64_def
      split: sum.splits)

lemma PublishWithConfirmation_valid:
  assumes "\<not> (exchangeName = '''' \<and> routingKey = '''')"
  shows "PublishWithConfirmation P (Some x) exchangeName routingKey wrapPayload metadata rs =
     (let rs' = rs\<lparr>letterCount := letterCount rs + 1\<rparr>;
          call = fst (createData P x (letterCount rs) wrapPayload metadata rs)
      in case snd (createData P x (letterCount rs) wrapPayload metadata rs
                     :: event \<times> (string + bytes)) of
           Inl err \<Rightarrow> ([call], Some (FromCollaborator err), rs')
         | Inr data \<Rightarrow>
             ([call, EvPublishWithConfirmation \<lparr>Letter.LetterID = letterCount rs, Body = data,
                       Envelope = newEnvelope exchangeName routingKey\<rparr> (300 * Millisecond)],
              None, rs'))"
  using assms
  by (auto simp: PublishWithConfirmation_def Let_def createData_def atomic_LoadUint64_def
      atomic_AddUint64_def split: sum.splits)

lemma Publish_invalid:
  "input = None \<or> (exchangeName = '''' \<and> routingKey = '''') \<Longrightarrow>
   Publish P input exchangeName routingKey wrapPayload metadata rs = ([], Some invalidPublish, rs)"
  by (auto simp: Publish_def split: option.splits)

lemma PublishWithConfirmation_invalid:
  "input = None \<or> (exchangeName = '''' \<and> routingKey = '''') \<Longrightarrow>
   PublishWithConfirmation P input exchangeName routingKey wrapPayload metadata rs =
     ([], Some invalidPublishWithConfirmation, rs)"
  by (auto simp: PublishWithConfirmation_def split: option.splits)

lemma doCall_step:
  assumes "doCall P c rs = (evs, err, rs')"
  shows "(\<forall>l \<in> set (handedLetters evs). Letter.LetterID l = letterCount rs)
       \<and> (letterCount rs' = letterCount rs \<or> letterCount rs' = letterCount rs + 1)"
proof (cases c)
  case (CallPublish input e r w m)
  show ?thesis
  proof (cases "input = None \<or> (e = '''' \<and> r = '''')")
    case True
    with assms CallPublish show ?thesis by (simp add: Publish_invalid)
  next
    case False
    then obtain x where "input = Some x" and "\<not> (e = '''' \<and> r = '''')" by auto
    with assms CallPublish show ?thesis
      by (auto simp: Publish_valid Let_def split: sum.splits)
  qed
next
  case (CallPublishWithConfirmation input e r w m)
  show ?thesis
  proof (cases "input = None \<or> (e = '''' \<and> r = '''')")
    case True
    with assms CallPublishWithConfirmation show ?thesis
      by (simp add: PublishWithConfirmation_invalid)
  next
    case False
    then obtain x where "input = Some x" and "\<not> (e = '''' \<and> r = '''')" by auto
    with assms CallPublishWithConfirmation show ?thesis
      by (auto simp: PublishWithConfirmation_valid Let_def split: sum.splits)
  qed
qed

lemma doCalls_ids:
  "l \<in> set (handedLetters (fst (doCalls P cs rs))) \<Longrightarrow>
   \<exists>k < length cs. Letter.LetterID l = letterCount rs + of_nat k"
proof (induction cs arbitrary: rs)
  case Nil
  then show ?case by simp
next
  case (Cons c cs)
  obtain evs err rs' where step: "doCall P c rs = (evs, err, rs')"
    by (cases "doCall P c rs") auto
  obtain evs' rs'' where rest: "doCalls P cs rs' = (evs', rs'')"
    by (cases "doCalls P cs rs'") auto
  from Cons.prems step rest
  have "l \<in> set (handedLetters evs) \<or> l \<in> set (handedLetters evs')" by simp
  then show ?case
  proof
    assume "l \<in> set (handedLetters evs)"
    with doCall_step [OF step] have "Letter.LetterID l = letterCount rs + of_nat 0" by simp
    then show ?thesis by (intro exI [of _ 0]) simp
  next
    assume "l \<in> set (handedLetters evs')"
    with rest have "l \<in> set (handedLetters (fst (doCalls P cs rs')))" by simp
    from Cons.IH [OF this] obtain k where k: "k < length cs"
      and id: "Letter.LetterID l = letterCount rs' + of_nat k" by blast
    from doCall_step [OF step]
    have "letterCount rs' = letterCount rs \<or> letterCount rs' = letterCount rs + 1" by simp
    then show ?thesis
    proof
      assume "letterCount rs' = letterCount rs"
      with id k show ?thesis by (intro exI [of _ k]) simp
    next
      assume "letterCount rs' = letterCount rs + 1"
      with id k show ?thesis by (intro exI [of _ "Suc k"]) simp
    qed
  qed
qed

lemma later_id_differs:
  fixes c :: u64
  assumes "k < n" and "n < 2 ^ 64 - 1"
  shows "c + 1 + of_nat k \<noteq> c"
proof
  assume "c + 1 + of_nat k = c"
  then have "(of_nat (Suc k) :: u64) = 0" by (simp add: add.assoc)
  then have "2 ^ 64 dvd Suc k"
    by (simp only: word_of_nat_eq_0_iff) simp
  then have "2 ^ 64 \<le> Suc k" by (rule dvd_imp_le) simp
  with assms show False by simp
qed

lemma Publish_validation:
  "fst (snd (Publish P input exchangeName routingKey wrapPayload metadata rs)) = Some invalidPublish
     \<longleftrightarrow> (input = None \<or> (exchangeName = '''' \<and> routingKey = ''''))"
  by (auto simp: Publish_def invalidPublish_def Let_def split: option.splits prod.splits sum.splits)

lemma PublishWithConfirmation_validation:
  "fst (snd (PublishWithConfirmation P input exchangeName routingKey wrapPayload metadata rs))
       = Some invalidPublishWithConfirmation
     \<longleftrightarrow> (input = None \<or> (exchangeName = '''' \<and> routingKey = ''''))"
  by (auto simp: PublishWithConfirmation_def invalidPublishWithConfirmation_def Let_def
      split: option.splits prod.splits sum.splits)

lemma Publish_ErrorsNew:
  "(\<exists>msg. fst (snd (Publish P input exchangeName routingKey wrapPayload metadata rs))
       = Some (ErrorsNew msg))
     \<longleftrightarrow> (input = None \<or> (exchangeName = '''' \<and> routingKey = ''''))"
  by (auto simp: Publish_def invalidPublish_def Let_def split: option.splits prod.splits sum.splits)

lemma PublishWithConfirmation_ErrorsNew:
  "(\<exists>msg. fst (snd (PublishWithConfirmation P input exchangeName routingKey wrapPayload metadata rs))
       = Some (ErrorsNew msg))
     \<longleftrightarrow> (input = None \<or> (exchangeName = '''' \<and> routingKey = ''''))"
  by (auto simp: PublishWithConfirmation_def invalidPublishWithConfirmation_def Let_def
      split: option.splits prod.splits sum.splits)

lemma newEnvelope_constants:
  "ContentType (newEnvelope e r) = ''application/json'' \<and> \<not> Mandatory (newEnvelope e r)
   \<and> \<not> Immediate (newEnvelope e r) \<and> DeliveryMode (newEnvelope e r) = 2"
  by (simp add: newEnvelope_def)

lemma doCall_envelope:
  assumes "l \<in> set (handedLetters (fst (doCall P c rs)))"
  shows "ContentType (Envelope l) = ''application/json'' \<and> \<not> Mandatory (Envelope l)
       \<and> \<not> Immediate (Envelope l) \<and> DeliveryMode (Envelope l) = 2"
proof (cases c)
  case (CallPublish input e r w m)
  show ?thesis
  proof (cases "input = None \<or> (e = '''' \<and> r = '''')")
    case True
    with assms CallPublish show ?thesis by (simp add: Publish_invalid)
  next
    case False
    then obtain x where "input = Some x" and "\<not> (e = '''' \<and> r = '''')" by auto
    with assms CallPublish show ?thesis
      by (auto simp: Publish_valid Let_def newEnvelope_def split: sum.splits)
  qed
next
  case (CallPublishWithConfirmation input e r w m)
  show ?thesis
  proof (cases "input = None \<or> (e = '''' \<and> r = '''')")
    case True
    with assms CallPublishWithConfirmation show ?thesis
      by (simp add: PublishWithConfirmation_invalid)
  next
    case False
    then obtain x where "input = Some x" and "\<not> (e = '''' \<and> r = '''')" by auto
    with assms CallPublishWithConfirmation show ?thesis
      by (auto simp: PublishWithConfirmation_valid Let_def newEnvelope_def split: sum.splits)
  qed
qed

lemma exampleService_after:
  "doCall failingPipeline (CallPublish (Some [1]) ''orders'' ''new'' True ''meta'') exampleService
     = ([EvCreateWrappedPayload [1] 5 ''meta'' ''gzip'' (EncryptionConfig exampleConfig)],
        Some (FromCollaborator ''marshal failed''), exampleService\<lparr>letterCount := 6\<rparr>)"
  by (simp add: Publish_def Let_def createData_def failingPipeline_def
        exampleService_def exampleConfig_def atomic_LoadUint64_def atomic_AddUint64_def)

lemma digits_7: "digits 7 = ''7''"
  by (simp add: digits.simps)

lemma centralErrs_simps [simp]:
  "centralErrs [] = []"
  "centralErrs (e # evs) = centralErrOf e @ centralErrs evs"
  "centralErrs (xs @ ys) = centralErrs xs @ centralErrs ys"
  by (simp_all add: centralErrs_def)

lemma requeues_simps [simp]:
  "requeues [] = []"
  "requeues (e # evs) = requeueOf e @ requeues evs"
  "requeues (xs @ ys) = requeues xs @ requeues ys"
  by (simp_all add: requeues_def)

lemma handlerCalls_simps [simp]:
  "handlerCalls [] = []"
  "handlerCalls (e # evs) = handlerCallOf e @ handlerCalls evs"
  "handlerCalls (xs @ ys) = handlerCalls xs @ handlerCalls ys"
  by (simp_all add: handlerCalls_def)

lemma stops_simps [simp]:
  "stops [] = []"
  "stops (e # evs) = stopOf e @ stops evs"
  "stops (xs @ ys) = stops xs @ stops ys"
  by (simp_all add: stops_def)

lemma derivations_simps [simp]:
  "derivations [] = []"
  "derivations (e # evs) = derivationOf e @ derivations evs"
  "derivations (xs @ ys) = derivations xs @ derivations ys"
  by (simp_all add: derivations_def)

lemma receiptLoops_simps [simp]:
  "receiptLoops [] = []"
  "receiptLoops (e # evs) = receiptLoopOf e @ receiptLoops evs"
  "receiptLoops (xs @ ys) = receiptLoops xs @ receiptLoops ys"
  by (simp_all add: receiptLoops_def)

lemma pipelineEncryption_simps [simp]:
  "pipelineEncryption [] = []"
  "pipelineEncryption (e # evs) = pipelineEncryptionOf e @ pipelineEncryption evs"
  "pipelineEncryption (xs @ ys) = pipelineEncryption xs @ pipelineEncryption ys"
  by (simp_all add: pipelineEncryption_def)

lemma invoke_trace:
  "handlerCalls (invokeProcessPublishReceipts h turns rs) = map (Pair h) (drained turns)
   \<and> requeues (invokeProcessPublishReceipts h turns rs) = []
   \<and> centralErrs (invokeProcessPublishReceipts h turns rs) = []"
  by (induction turns rule: drained.induct) simp_all

lemma createConsumers_projections:
  "createConsumers env cfgs rs = (evs, err, rs') \<Longrightarrow>
     receiptLoops evs = [] \<and> derivations evs = []"
  by (induction cfgs arbitrary: rs evs err rs')
    (auto simp: Let_def split: sum.splits prod.splits)

lemma createConsumers_frame:
  "createConsumers env cfgs rs = (evs, err, rs') \<Longrightarrow>
     Config rs' = Config rs \<and> encryptionConfigured rs' = encryptionConfigured rs"
  by (induction cfgs arbitrary: rs evs err rs')
    (auto simp: Let_def split: sum.splits prod.splits)

lemma startMonitors_projections:
  "receiptLoops (startMonitors h) =
     [case h of Some handler \<Rightarrow> GoInvokeProcessPublishReceipts handler
      | None \<Rightarrow> GoProcessPublishReceipts]"
  "derivations (startMonitors h) = []"
  by (simp_all add: startMonitors_def split: option.splits)

lemma createHashKey_loops:
  "createHashKey env passphrase salt rs = (evs, rs') \<Longrightarrow> receiptLoops evs = []"
  by (auto simp: createHashKey_def Let_def split: if_splits)

lemma NewRabbitService_Inr:
  assumes "NewRabbitService env config passphrase salt h = (evs, Inr rs)"
  shows "\<exists>evs1 rs1 evs2.
    createConsumers env (ConsumerConfigs config)
       \<lparr>Config = config, encryptionConfigured = False, consumers = [], shutdown = False,
        letterCount = 0, monitorSleepInterval = 200 * Millisecond\<rparr> = (evs1, None, rs1)
    \<and> createHashKey env passphrase salt rs1 = (evs2, rs)
    \<and> evs = [EvNewConnectionPool (PoolConfig config), EvNewPublisherWithConfig config,
                EvNewTopologer] @ evs1 @ evs2 @ startMonitors h"
  using assms
  by (auto simp: NewRabbitService_def Let_def split: option.splits prod.splits sum.splits)

lemma NewRabbitService_example:
  "NewRabbitService exampleEnv exampleConfig passphrase salt h =
     ([EvNewConnectionPool ''pool'', EvNewPublisherWithConfig exampleConfig, EvNewTopologer,
       EvNewConsumerFromConfig ''queue-1'', EvNewConsumerFromConfig ''queue-2'']
        @ fst (createHashKey exampleEnv passphrase salt (exampleService\<lparr>letterCount := 0\<rparr>))
        @ startMonitors h,
      Inr (snd (createHashKey exampleEnv passphrase salt (exampleService\<lparr>letterCount := 0\<rparr>))))"
  by (simp add: NewRabbitService_def exampleEnv_def exampleConfig_def exampleService_def Let_def
      split: prod.splits)

lemma sendCentralErr_simps [simp]:
  "sendCentralErr err 0 = ([], None)"
  "sendCentralErr err (Suc left) = ([EvSendCentralErr err], Some left)"
  by (simp_all add: sendCentralErr_def)

lemma stopFailures_simps [simp]:
  "stopFailures env [] = []"
  "stopFailures env ((name, consumer) # rest) =
     (case StopConsuming env consumer True True of
        Some err \<Rightarrow> [FromCollaborator err]
      | None \<Rightarrow> []) @ stopFailures env rest"
  by (simp_all add: stopFailures_def)

lemma stopsAndReports_simps [simp]:
  "stopsAndReports env [] = []"
  "stopsAndReports env ((name, consumer) # rest) =
     EvStopConsuming consumer True True
       # (case StopConsuming env consumer True True of
            Some err \<Rightarrow> [EvSendCentralErr (FromCollaborator err)]
          | None \<Rightarrow> [])
       @ stopsAndReports env rest"
  by (simp_all add: stopsAndReports_def)

lemma stopConsumersLoop_Cons [simp]:
  "stopConsumersLoop env ((name, consumer) # rest) receivers =
     (case StopConsuming env consumer True True of
        None \<Rightarrow>
          (EvStopConsuming consumer True True # fst (stopConsumersLoop env rest receivers),
           snd (stopConsumersLoop env rest receivers))
      | Some err \<Rightarrow>
          (case receivers of
             0 \<Rightarrow> ([EvStopConsuming consumer True True], None)
           | Suc left \<Rightarrow>
               (EvStopConsuming consumer True True # EvSendCentralErr (FromCollaborator err)
                  # fst (stopConsumersLoop env rest left),
                snd (stopConsumersLoop env rest left))))"
  by (simp add: case_prod_beta split: option.splits nat.splits)

declare stopConsumersLoop.simps(2) [simp del]






lemma Publish_handOver:
  assumes "\<not> (exchangeName = '''' \<and> routingKey = '''')"
  shows "Publish P (Some x) exchangeName routingKey wrapPayload metadata rs =
     (fst (handOver P False x exchangeName routingKey wrapPayload metadata (letterCount rs)
             (rs\<lparr>letterCount := letterCount rs + 1\<rparr>)),
      snd (handOver P False x exchangeName routingKey wrapPayload metadata (letterCount rs)
             (rs\<lparr>letterCount := letterCount rs + 1\<rparr>)),
      rs\<lparr>letterCount := letterCount rs + 1\<rparr>)"
  using assms
  by (simp add: Publish_def handOver_def Let_def atomic_LoadUint64_def atomic_AddUint64_def
      split: prod.splits sum.splits)

lemma PublishWithConfirmation_handOver:
  assumes "\<not> (exchangeName = '''' \<and> routingKey = '''')"
  shows "PublishWithConfirmation P (Some x) exchangeName routingKey wrapPayload metadata rs =
     (fst (handOver P True x exchangeName routingKey wrapPayload metadata (letterCount rs)
             (rs\<lparr>letterCount := letterCount rs + 1\<rparr>)),
      snd (handOver P True x exchangeName routingKey wrapPayload metadata (letterCount rs)
             (rs\<lparr>letterCount := letterCount rs + 1\<rparr>)),
      rs\<lparr>letterCount := letterCount rs + 1\<rparr>)"
  using assms
  by (simp add: PublishWithConfirmation_def handOver_def Let_def atomic_LoadUint64_def
      atomic_AddUint64_def split: prod.splits sum.splits)

lemma caller_alone:
  assumes "i < length cs" and "position (cs ! i) = AtLoad"
  shows "interleave [i, i] (rs, cs) =
     (rs\<lparr>letterCount := letterCount rs + 1\<rparr>,
      cs[i := \<lparr>position = AtLoad, assigned = assigned (cs ! i) @ [letterCount rs]\<rparr>])"
  using assms
  by (simp add: interleave_def stepCaller_def atomic_LoadUint64_def atomic_AddUint64_def)

lemma reservation_is_two_steps:
  assumes "\<not> (exchangeName = '''' \<and> routingKey = '''')"
  shows "interleave [0, 0] (rs, [\<lparr>position = AtLoad, assigned = []\<rparr>]) =
     (snd (snd (Publish P (Some x) exchangeName routingKey wrapPayload metadata rs)),
      [\<lparr>position = AtLoad, assigned = [letterCount rs]\<rparr>])"
  using assms
  by (simp add: Publish_valid Let_def interleave_def stepCaller_def atomic_LoadUint64_def
      atomic_AddUint64_def split: sum.splits)

lemma doCall_hands:
  assumes "doCall P c rs = (evs, err, rs')"
  shows "(handedLetters evs = [] \<and>
            (letterCount rs' = letterCount rs \<or> letterCount rs' = letterCount rs + 1))
       \<or> (map Letter.LetterID (handedLetters evs) = [letterCount rs]
            \<and> letterCount rs' = letterCount rs + 1)"
proof (cases c)
  case (CallPublish input e r w m)
  show ?thesis
  proof (cases "input = None \<or> (e = '''' \<and> r = '''')")
    case True
    with assms CallPublish show ?thesis by (simp add: Publish_invalid)
  next
    case False
    then obtain x where "input = Some x" and "\<not> (e = '''' \<and> r = '''')" by auto
    with assms CallPublish show ?thesis
      by (auto simp: Publish_valid Let_def split: sum.splits)
  qed
next
  case (CallPublishWithConfirmation input e r w m)
  show ?thesis
  proof (cases "input = None \<or> (e = '''' \<and> r = '''')")
    case True
    with assms CallPublishWithConfirmation show ?thesis
      by (simp add: PublishWithConfirmation_invalid)
  next
    case False
    then obtain x where "input = Some x" and "\<not> (e = '''' \<and> r = '''')" by auto
    with assms CallPublishWithConfirmation show ?thesis
      by (auto simp: PublishWithConfirmation_valid Let_def split: sum.splits)
  qed
qed

lemma doCalls_offsets:
  "\<exists>ks. map Letter.LetterID (handedLetters (fst (doCalls P cs rs)))
           = map (\<lambda>k. letterCount rs + of_nat k) ks
        \<and> sorted_wrt (<) ks \<and> (\<forall>k \<in> set ks. k < length cs)"
proof (induction cs arbitrary: rs)
  case Nil
  then show ?case by simp
next
  case (Cons c cs)
  obtain evs err rs' where step: "doCall P c rs = (evs, err, rs')"
    by (cases "doCall P c rs") auto
  obtain evs' rs'' where rest: "doCalls P cs rs' = (evs', rs'')"
    by (cases "doCalls P cs rs'") auto
  from Cons.IH [of rs'] rest obtain ks where
    ids: "map Letter.LetterID (handedLetters evs') = map (\<lambda>k. letterCount rs' + of_nat k) ks"
    and srt: "sorted_wrt (<) ks" and bnd: "\<forall>k \<in> set ks. k < length cs"
    by auto
  have all: "map Letter.LetterID (handedLetters (fst (doCalls P (c # cs) rs)))
      = map Letter.LetterID (handedLetters evs) @ map Letter.LetterID (handedLetters evs')"
    using step rest by simp
  from doCall_hands [OF step] consider
      (same) "handedLetters evs = []" "letterCount rs' = letterCount rs"
    | (skip) "handedLetters evs = []" "letterCount rs' = letterCount rs + 1"
    | (hand) "map Letter.LetterID (handedLetters evs) = [letterCount rs]"
        "letterCount rs' = letterCount rs + 1"
    by blast
  then show ?case
  proof cases
    case same
    with all ids srt bnd show ?thesis
      by (intro exI [of _ ks]) auto
  next
    case skip
    with all ids have "map Letter.LetterID (handedLetters (fst (doCalls P (c # cs) rs)))
        = map (\<lambda>k. letterCount rs + of_nat k) (map Suc ks)"
      by (simp add: add.assoc)
    moreover from srt have "sorted_wrt (<) (map Suc ks)"
      by (simp add: sorted_wrt_map)
    moreover from bnd have "\<forall>k \<in> set (map Suc ks). k < length (c # cs)" by auto
    ultimately show ?thesis by blast
  next
    case hand
    with all ids have "map Letter.LetterID (handedLetters (fst (doCalls P (c # cs) rs)))
        = map (\<lambda>k. letterCount rs + of_nat k) (0 # map Suc ks)"
      by (simp add: add.assoc)
    moreover from srt have "sorted_wrt (<) (0 # map Suc ks)"
      by (simp add: sorted_wrt_map)
    moreover from bnd have "\<forall>k \<in> set (0 # map Suc ks). k < length (c # cs)" by auto
    ultimately show ?thesis by blast
  qed
qed

lemma of_nat_inj_u64:
  assumes "j < 2 ^ 64" and "k < 2 ^ 64" and "(of_nat j :: u64) = of_nat k"
  shows "j = k"
proof -
  from assms(3) have "unat (of_nat j :: u64) = unat (of_nat k :: u64)" by simp
  with assms(1,2) show ?thesis by (simp add: unat_of_nat)
qed

lemma unat_offset:
  fixes c :: u64
  assumes "unat c + k < 2 ^ 64"
  shows "unat (c + of_nat k) = unat c + k"
proof -
  from assms have "k < 2 ^ 64" by simp
  then have "unat (of_nat k :: u64) = k" by (simp add: unat_of_nat)
  with assms show ?thesis by (simp add: unat_add_lem [THEN iffD1])
qed

lemma interleave_snoc:
  "interleave (schedule @ [i]) st = stepCaller i (interleave schedule st)"
  by (simp add: interleave_def)

lemma stepCaller_count:
  "letterCount (fst (stepCaller i st)) = letterCount (fst st)
   \<or> letterCount (fst (stepCaller i st)) = letterCount (fst st) + 1"
  by (cases st)
    (auto simp: stepCaller_def atomic_AddUint64_def split: position.splits)

lemma stepCaller_ordered:
  assumes inv: "callersOrdered st" and room: "unat (letterCount (fst st)) + 1 < 2 ^ 64"
  shows "callersOrdered (stepCaller i st)"
proof -
  obtain rs cs where st: "st = (rs, cs)" by (cases st)
  have up: "unat (letterCount rs + 1) = unat (letterCount rs) + 1"
    using room unat_offset [of "letterCount rs" 1] by (simp add: st)
  show ?thesis
  proof (cases "i < length cs")
    case False
    with inv st show ?thesis by (simp add: stepCaller_def)
  next
    case True
    then have mem: "cs ! i \<in> set cs" by simp
    from inv st mem have me:
      "sorted_wrt (<) (map unat (assigned (cs ! i)))"
      "\<forall>w \<in> set (assigned (cs ! i)). unat w < unat (letterCount rs)"
      "\<forall>v. position (cs ! i) = AtAdd v \<longrightarrow>
          unat v \<le> unat (letterCount rs)
          \<and> (\<forall>w \<in> set (assigned (cs ! i)). unat w < unat v)"
      by (auto simp: callersOrdered_def)
    show ?thesis
    proof (cases "position (cs ! i)")
      case AtLoad
      then have step: "stepCaller i st =
          (rs, cs[i := (cs ! i)\<lparr>position := AtAdd (letterCount rs)\<rparr>])"
        using True st by (simp add: stepCaller_def atomic_LoadUint64_def)
      have "c \<in> set cs \<or> c = (cs ! i)\<lparr>position := AtAdd (letterCount rs)\<rparr>"
        if "c \<in> set (cs[i := (cs ! i)\<lparr>position := AtAdd (letterCount rs)\<rparr>])" for c
        using that set_update_subset_insert [of cs i] by auto
      with inv st me show ?thesis
        unfolding step callersOrdered_def by fastforce
    next
      case (AtAdd v)
      then have step: "stepCaller i st =
          (rs\<lparr>letterCount := letterCount rs + 1\<rparr>,
           cs[i := \<lparr>position = AtLoad, assigned = assigned (cs ! i) @ [v]\<rparr>])"
        using True st by (simp add: stepCaller_def atomic_AddUint64_def)
      from me(3) AtAdd have v: "unat v \<le> unat (letterCount rs)"
        "\<forall>w \<in> set (assigned (cs ! i)). unat w < unat v" by auto
      have new: "sorted_wrt (<) (map unat (assigned (cs ! i) @ [v]))"
        using me(1) v(2) by (simp add: sorted_wrt_append)
      have "c \<in> set cs \<or> c = \<lparr>position = AtLoad, assigned = assigned (cs ! i) @ [v]\<rparr>"
        if "c \<in> set (cs[i := \<lparr>position = AtLoad, assigned = assigned (cs ! i) @ [v]\<rparr>])"
        for c
        using that set_update_subset_insert [of cs i] by auto
      with inv st me new v up show ?thesis
        unfolding step callersOrdered_def by fastforce
    qed
  qed
qed

lemma interleave_ordered:
  assumes "callersOrdered st"
    and "unat (letterCount (fst st)) + length schedule < 2 ^ 64"
  shows "callersOrdered (interleave schedule st)
       \<and> unat (letterCount (fst (interleave schedule st)))
           \<le> unat (letterCount (fst st)) + length schedule"
  using assms(2)
proof (induction schedule rule: rev_induct)
  case Nil
  with assms(1) show ?case by (simp add: interleave_def)
next
  case (snoc i schedule)
  then have ih: "callersOrdered (interleave schedule st)"
    and bound: "unat (letterCount (fst (interleave schedule st)))
           \<le> unat (letterCount (fst st)) + length schedule"
    by simp_all
  from bound snoc.prems
  have room: "unat (letterCount (fst (interleave schedule st))) + 1 < 2 ^ 64" by simp
  have "callersOrdered (interleave (schedule @ [i]) st)"
    using stepCaller_ordered [OF ih room] by (simp add: interleave_snoc)
  moreover have "unat (letterCount (fst (interleave (schedule @ [i]) st)))
           \<le> unat (letterCount (fst st)) + length (schedule @ [i])"
    using stepCaller_count [of i "interleave schedule st"] bound room
      unat_offset [of "letterCount (fst (interleave schedule st))" 1]
    by (auto simp: interleave_snoc)
  ultimately show ?case by simp
qed

section \<open>The argument check\<close>

text \<open>
  C3. \<open>Publish\<close> and \<open>PublishWithConfirmation\<close> return their invalid-argument error if
  and only if the input is absent (\<open>nil\<close>) or the exchange name and the routing key are
  both empty. With an input and at least one of the two names, the result is never an
  error made by \<open>errors.New\<close>: it is \<open>nil\<close> or the pipeline's error.
\<close>

theorem validation_error_iff:
  "(fst (snd (Publish P input exchangeName routingKey wrapPayload metadata rs))
        = Some invalidPublish
      \<longleftrightarrow> input = None \<or> (exchangeName = '''' \<and> routingKey = ''''))
   \<and> (fst (snd (PublishWithConfirmation P input exchangeName routingKey wrapPayload metadata rs))
        = Some invalidPublishWithConfirmation
      \<longleftrightarrow> input = None \<or> (exchangeName = '''' \<and> routingKey = ''''))
   \<and> ((\<exists>msg. fst (snd (Publish P input exchangeName routingKey wrapPayload metadata rs))
          = Some (ErrorsNew msg))
      \<longleftrightarrow> input = None \<or> (exchangeName = '''' \<and> routingKey = ''''))
   \<and> ((\<exists>msg. fst (snd (PublishWithConfirmation P input exchangeName routingKey wrapPayload
                         metadata rs)) = Some (ErrorsNew msg))
      \<longleftrightarrow> input = None \<or> (exchangeName = '''' \<and> routingKey = ''''))"
  by (simp only: Publish_validation PublishWithConfirmation_validation Publish_ErrorsNew
      PublishWithConfirmation_ErrorsNew simp_thms)

theorem validation_error_iff_witness:
  "fst (snd (Publish echoPipeline None ''orders'' ''new'' False '''' exampleService))
     = Some invalidPublish
   \<and> fst (snd (PublishWithConfirmation echoPipeline (Some [1]) '''' '''' False '''' exampleService))
     = Some invalidPublishWithConfirmation
   \<and> fst (snd (Publish echoPipeline (Some [1]) '''' ''new'' False '''' exampleService))
     \<noteq> Some invalidPublish
   \<and> fst (snd (PublishWithConfirmation echoPipeline (Some [1]) ''orders'' '''' True '''' exampleService))
     \<noteq> Some invalidPublishWithConfirmation"
  using
    validation_error_iff [where P = echoPipeline and input = None and exchangeName = "''orders''"
      and routingKey = "''new''" and wrapPayload = False and metadata = "''''"
      and rs = exampleService]
    validation_error_iff [where P = echoPipeline and input = "Some [1]" and exchangeName = "''''"
      and routingKey = "''''" and wrapPayload = False and metadata = "''''"
      and rs = exampleService]
    validation_error_iff [where P = echoPipeline and input = "Some [1]" and exchangeName = "''''"
      and routingKey = "''new''" and wrapPayload = False and metadata = "''''"
      and rs = exampleService]
    validation_error_iff [where P = echoPipeline and input = "Some [1]"
      and exchangeName = "''orders''" and routingKey = "''''" and wrapPayload = True
      and metadata = "''''" and rs = exampleService]
  by simp

section \<open>Failure of the payload pipeline\<close>

text \<open>
  C8. When a call passes the argument check and the payload pipeline (the wrapped or
  the plain construction, as \<open>wrapPayload\<close> says) fails, the call returns the pipeline's
  error and hands no letter to the publisher.
\<close>

theorem pipeline_failure_returned:
  assumes "\<not> (exchangeName = '''' \<and> routingKey = '''')"
    and "(if wrapPayload
          then CreateWrappedPayload P x (letterCount rs) metadata
                 (CompressionConfig (Config rs)) (EncryptionConfig (Config rs))
          else CreatePayload P x (CompressionConfig (Config rs)) (EncryptionConfig (Config rs)))
         = Inl err"
  shows "(case Publish P (Some x) exchangeName routingKey wrapPayload metadata rs of
            (evs, result, rs') \<Rightarrow> result = Some (FromCollaborator err) \<and> handedLetters evs = [])
       \<and> (case PublishWithConfirmation P (Some x) exchangeName routingKey wrapPayload metadata rs of
            (evs, result, rs') \<Rightarrow> result = Some (FromCollaborator err) \<and> handedLetters evs = [])"
  using assms
  by (auto simp: Publish_valid PublishWithConfirmation_valid Let_def createData_def
        split: if_splits)

theorem pipeline_failure_returned_witness:
  "fst (snd (Publish failingPipeline (Some [1, 2]) ''orders'' ''new'' False '''' exampleService))
     = Some (FromCollaborator ''marshal failed'')
   \<and> handedLetters (fst (Publish failingPipeline (Some [1, 2]) ''orders'' ''new'' False ''''
        exampleService)) = []
   \<and> fst (snd (PublishWithConfirmation failingPipeline (Some [1, 2]) ''orders'' ''new'' False ''''
        exampleService)) = Some (FromCollaborator ''marshal failed'')
   \<and> handedLetters (fst (PublishWithConfirmation failingPipeline (Some [1, 2]) ''orders'' ''new''
        False '''' exampleService)) = []"
  using pipeline_failure_returned [where P = failingPipeline and x = "[1, 2]"
      and exchangeName = "''orders''" and routingKey = "''new''" and wrapPayload = False
      and metadata = "''''" and rs = exampleService and err = "''marshal failed''"]
  by (simp add: failingPipeline_def split: prod.splits)

section \<open>The letter of a publish\<close>

text \<open>
  C2. With the counter at 5, \<open>Publish\<close> of a present input to exchange \<open>orders\<close> with
  routing key \<open>new\<close>, unwrapped and without metadata, leaves the counter at 6; when the
  pipeline yields the payload, the one letter handed to the publisher has LetterID 5 and
  the envelope \<open>orders\<close>, \<open>new\<close>, \<open>application/json\<close>, not mandatory, not immediate,
  delivery mode 2 (no letter of the call is any other). Every letter that any call of
  \<open>Publish\<close> or \<open>PublishWithConfirmation\<close> hands to the publisher has these four constant
  envelope fields.
\<close>

theorem publish_scenario:
  assumes "letterCount rs = 5"
  shows "(case Publish P (Some x) ''orders'' ''new'' False '''' rs of
            (evs, result, rs') \<Rightarrow>
              letterCount rs' = 6
              \<and> (\<forall>data. CreatePayload P x (CompressionConfig (Config rs))
                           (EncryptionConfig (Config rs)) = Inr data \<longrightarrow>
                    result = None
                    \<and> handedLetters evs =
                        [\<lparr>Letter.LetterID = 5, Body = data,
                          Envelope = \<lparr>Exchange = ''orders'', RoutingKey = ''new'',
                                      ContentType = ''application/json'', Mandatory = False,
                                      Immediate = False, DeliveryMode = 2\<rparr>\<rparr>])
              \<and> (\<forall>l \<in> set (handedLetters evs).
                    Letter.LetterID l = 5
                    \<and> Envelope l = \<lparr>Exchange = ''orders'', RoutingKey = ''new'',
                                     ContentType = ''application/json'', Mandatory = False,
                                     Immediate = False, DeliveryMode = 2\<rparr>))
       \<and> (\<forall>l \<in> set (handedLetters (fst (doCall P c rs0))).
             ContentType (Envelope l) = ''application/json'' \<and> \<not> Mandatory (Envelope l)
             \<and> \<not> Immediate (Envelope l) \<and> DeliveryMode (Envelope l) = 2)"
proof -
  have valid: "\<not> (''orders'' = '''' \<and> ''new'' = '''')" by simp
  have "case Publish P (Some x) ''orders'' ''new'' False '''' rs of
            (evs, result, rs') \<Rightarrow>
              letterCount rs' = 6
              \<and> (\<forall>data. CreatePayload P x (CompressionConfig (Config rs))
                           (EncryptionConfig (Config rs)) = Inr data \<longrightarrow>
                    result = None
                    \<and> handedLetters evs =
                        [\<lparr>Letter.LetterID = 5, Body = data,
                          Envelope = \<lparr>Exchange = ''orders'', RoutingKey = ''new'',
                                      ContentType = ''application/json'', Mandatory = False,
                                      Immediate = False, DeliveryMode = 2\<rparr>\<rparr>])
              \<and> (\<forall>l \<in> set (handedLetters evs).
                    Letter.LetterID l = 5
                    \<and> Envelope l = \<lparr>Exchange = ''orders'', RoutingKey = ''new'',
                                     ContentType = ''application/json'', Mandatory = False,
                                     Immediate = False, DeliveryMode = 2\<rparr>)"
    using assms
    by (auto simp: Publish_valid [OF valid] Let_def createData_def newEnvelope_def
        split: sum.splits)
  moreover have "\<forall>l \<in> set (handedLetters (fst (doCall P c rs0))).
             ContentType (Envelope l) = ''application/json'' \<and> \<not> Mandatory (Envelope l)
             \<and> \<not> Immediate (Envelope l) \<and> DeliveryMode (Envelope l) = 2"
    using doCall_envelope by blast
  ultimately show ?thesis by (rule conjI)
qed

theorem publish_scenario_witness:
  "letterCount exampleService = 5
   \<and> Publish echoPipeline (Some [104, 105]) ''orders'' ''new'' False '''' exampleService =
       ([EvCreatePayload [104, 105] ''gzip'' (EncryptionConfig exampleConfig),
         EvPublish \<lparr>Letter.LetterID = 5, Body = [104, 105],
                    Envelope = \<lparr>Exchange = ''orders'', RoutingKey = ''new'',
                                ContentType = ''application/json'', Mandatory = False,
                                Immediate = False, DeliveryMode = 2\<rparr>\<rparr>],
        None, exampleService\<lparr>letterCount := 6\<rparr>)"
proof -
  have c: "letterCount exampleService = 5" by (simp add: exampleService_def)
  note publish_scenario [OF c, where P = echoPipeline and x = "[104, 105]"
      and c = "CallPublish (Some [104, 105]) ''orders'' ''new'' False ''''"
      and ?rs0.0 = exampleService]
  then show ?thesis
    by (simp add: Publish_def Let_def createData_def newEnvelope_def echoPipeline_def
        exampleService_def exampleConfig_def atomic_LoadUint64_def atomic_AddUint64_def)
qed

section \<open>A failed call consumes its LetterID\<close>

text \<open>
  C10. A call that passes the argument check advances the counter by one also when the
  payload pipeline then fails, but the LetterID it reserved is not safe from reuse: the
  reservation is a load and an add, and a second caller that loads before the first adds
  reserves the same LetterID. From a counter at 5 both callers hold 5 and the counter
  ends at 7; the first caller's value cannot be serialised and its call returns the
  pipeline's error, and the second caller's call then hands the publisher a letter with
  LetterID 5.
\<close>

theorem failed_call_letter_id_reused:
  "interleave [0, 1, 0, 1]
     (exampleService,
      [\<lparr>position = AtLoad, assigned = []\<rparr>, \<lparr>position = AtLoad, assigned = []\<rparr>])
   = (exampleService\<lparr>letterCount := 7\<rparr>,
      [\<lparr>position = AtLoad, assigned = [5]\<rparr>, \<lparr>position = AtLoad, assigned = [5]\<rparr>])
   \<and> handOver strictPipeline False [] ''orders'' ''new'' False '''' 5
       (exampleService\<lparr>letterCount := 7\<rparr>)
     = ([EvCreatePayload [] ''gzip'' (EncryptionConfig exampleConfig)],
        Some (FromCollaborator ''marshal failed''))
   \<and> handOver strictPipeline False [104, 105] ''orders'' ''new'' False '''' 5
       (exampleService\<lparr>letterCount := 7\<rparr>)
     = ([EvCreatePayload [104, 105] ''gzip'' (EncryptionConfig exampleConfig),
         EvPublish \<lparr>Letter.LetterID = 5, Body = [104, 105],
                    Envelope = newEnvelope ''orders'' ''new''\<rparr>],
        None)"
  by (simp add: interleave_def stepCaller_def atomic_LoadUint64_def atomic_AddUint64_def
      handOver_def createData_def strictPipeline_def exampleService_def exampleConfig_def)

text \<open>
  When the calls do not overlap, a call of \<open>Publish\<close> or \<open>PublishWithConfirmation\<close> that
  passes the argument check and then fails in the payload pipeline has advanced the
  letter counter by one: it returns the pipeline's error, hands no letter to the
  publisher, and the LetterID it reserved (the counter before the call) is the LetterID
  of no letter of the calls made after it. The counter is a \<open>uint64\<close>, so the calls made
  after it are taken to be fewer than \<open>2 ^ 64 - 1\<close>, before the counter comes round.
\<close>

theorem reserved_id_consumed:
  assumes "\<not> (exchangeName = '''' \<and> routingKey = '''')"
    and "(if wrapPayload
          then CreateWrappedPayload P x (letterCount rs) metadata
                 (CompressionConfig (Config rs)) (EncryptionConfig (Config rs))
          else CreatePayload P x (CompressionConfig (Config rs)) (EncryptionConfig (Config rs)))
         = Inl err"
    and "call = CallPublish (Some x) exchangeName routingKey wrapPayload metadata
         \<or> call = CallPublishWithConfirmation (Some x) exchangeName routingKey wrapPayload metadata"
  shows "(case doCall P call rs of
            (evs, result, rs') \<Rightarrow>
              result = Some (FromCollaborator err)
              \<and> letterCount rs' = letterCount rs + 1
              \<and> handedLetters evs = []
              \<and> (\<forall>later. length later < 2 ^ 64 - 1 \<longrightarrow>
                    (\<forall>l \<in> set (handedLetters (fst (doCalls P' later rs'))).
                       Letter.LetterID l \<noteq> letterCount rs)))"
proof -
  obtain evs result rs' where run: "doCall P call rs = (evs, result, rs')"
    by (cases "doCall P call rs") auto
  from assms run have res: "result = Some (FromCollaborator err)"
    and cnt: "letterCount rs' = letterCount rs + 1" and none: "handedLetters evs = []"
    by (auto simp: Publish_valid PublishWithConfirmation_valid Let_def createData_def
        split: if_splits)
  have "Letter.LetterID l \<noteq> letterCount rs"
    if "length later < 2 ^ 64 - 1" and "l \<in> set (handedLetters (fst (doCalls P' later rs')))"
    for later l
  proof -
    from doCalls_ids [OF that(2)] obtain k where "k < length later"
      and "Letter.LetterID l = letterCount rs' + of_nat k" by blast
    with cnt that(1) later_id_differs [of k "length later" "letterCount rs"]
    show ?thesis by simp
  qed
  with res cnt none run show ?thesis by simp
qed

theorem reserved_id_consumed_witness:
  "doCall failingPipeline (CallPublish (Some [1]) ''orders'' ''new'' True ''meta'') exampleService
     = ([EvCreateWrappedPayload [1] 5 ''meta'' ''gzip'' (EncryptionConfig exampleConfig)],
        Some (FromCollaborator ''marshal failed''), exampleService\<lparr>letterCount := 6\<rparr>)
   \<and> map Letter.LetterID (handedLetters (fst (doCalls echoPipeline
         [CallPublish (Some [2]) ''orders'' ''new'' False '''',
          CallPublishWithConfirmation (Some [3]) ''orders'' ''new'' False '''']
         (exampleService\<lparr>letterCount := 6\<rparr>)))) = [6, 7]
   \<and> 5 \<notin> set (map Letter.LetterID (handedLetters (fst (doCalls echoPipeline
         [CallPublish (Some [2]) ''orders'' ''new'' False '''',
          CallPublishWithConfirmation (Some [3]) ''orders'' ''new'' False '''']
         (exampleService\<lparr>letterCount := 6\<rparr>)))))"
proof -
  have fails: "(if True
          then CreateWrappedPayload failingPipeline [1] (letterCount exampleService) ''meta''
                 (CompressionConfig (Config exampleService))
                 (EncryptionConfig (Config exampleService))
          else CreatePayload failingPipeline [1] (CompressionConfig (Config exampleService))
                 (EncryptionConfig (Config exampleService)))
         = Inl ''marshal failed''"
    by (simp add: failingPipeline_def)
  have valid: "\<not> (''orders'' = '''' \<and> ''new'' = '''')" by simp
  define later :: "publishCall list" where
    "later = [CallPublish (Some [2]) ''orders'' ''new'' False '''',
              CallPublishWithConfirmation (Some [3]) ''orders'' ''new'' False '''']"
  have short: "length later < 2 ^ 64 - 1" by (simp add: later_def)
  have five: "letterCount exampleService = 5" by (simp add: exampleService_def)
  note reserved_id_consumed [OF valid fails disjI1 [OF refl], where P' = echoPipeline]
  then have "\<forall>later. length later < 2 ^ 64 - 1 \<longrightarrow>
      (\<forall>l \<in> set (handedLetters (fst (doCalls echoPipeline later
          (exampleService\<lparr>letterCount := 6\<rparr>)))). Letter.LetterID l \<noteq> 5)"
    by (simp only: exampleService_after five prod.case simp_thms) blast
  with short have "\<forall>l \<in> set (handedLetters (fst (doCalls echoPipeline later
          (exampleService\<lparr>letterCount := 6\<rparr>)))). Letter.LetterID l \<noteq> 5"
    by blast
  then have "5 \<notin> set (map Letter.LetterID (handedLetters (fst (doCalls echoPipeline
         [CallPublish (Some [2]) ''orders'' ''new'' False '''',
          CallPublishWithConfirmation (Some [3]) ''orders'' ''new'' False '''']
         (exampleService\<lparr>letterCount := 6\<rparr>)))))"
    unfolding later_def set_map by (auto simp del: doCalls.simps doCall.simps)
  moreover have "map Letter.LetterID (handedLetters (fst (doCalls echoPipeline
         [CallPublish (Some [2]) ''orders'' ''new'' False '''',
          CallPublishWithConfirmation (Some [3]) ''orders'' ''new'' False '''']
         (exampleService\<lparr>letterCount := 6\<rparr>)))) = [6, 7]"
    by (simp add: Publish_def PublishWithConfirmation_def Let_def createData_def echoPipeline_def
        exampleService_def exampleConfig_def atomic_LoadUint64_def atomic_AddUint64_def)
  ultimately show ?thesis using exampleService_after by blast
qed

section \<open>The default receipt policy\<close>

text \<open>
  C4, as amended. Without a custom handler, the receipt loop reacts to a receipt that
  reports failure and carries the failed letter by sending one error that names the
  LetterID to the central error stream and, once a receiver has taken it, queueing that
  very letter once with the publisher; to a receipt that reports failure and carries no
  letter by sending one error that names the LetterID, queueing nothing; to a receipt
  that reports success by doing nothing, receiver or not. With no receiver on the
  central error stream the loop waits for ever on the send of a failed receipt: nothing
  is sent and nothing is queued. The two errors are worded differently, whatever the
  LetterIDs.
\<close>

theorem default_receipt_policy:
  "(\<not> Success receipt \<and> FailedLetter receipt = Some letter \<longrightarrow>
      processPublishReceipts (Received receipt # turns) rs (Suc left) =
        ([EvSendCentralErr (FmtErrorf (''failed to publish letter ''
            @ digits (unat (PublishReceipt.LetterID receipt)) @ ''... retrying'')),
          EvQueueLetter letter] @ fst (processPublishReceipts turns rs left),
         snd (processPublishReceipts turns rs left)))
   \<and> (\<not> Success receipt \<and> FailedLetter receipt = None \<longrightarrow>
      processPublishReceipts (Received receipt # turns) rs (Suc left) =
        ([EvSendCentralErr (FmtErrorf (''failed to publish a letter ''
            @ digits (unat (PublishReceipt.LetterID receipt))
            @ '' and unable to retry as a copy of the letter was not received''))]
           @ fst (processPublishReceipts turns rs left),
         snd (processPublishReceipts turns rs left)))
   \<and> (Success receipt \<longrightarrow>
      processPublishReceipts (Received receipt # turns) rs receivers
        = processPublishReceipts turns rs receivers)
   \<and> (\<not> Success receipt \<longrightarrow>
      processPublishReceipts (Received receipt # turns) rs 0 = ([], None))
   \<and> (\<forall>n m. ''failed to publish letter '' @ digits n @ ''... retrying'' \<noteq>
        ''failed to publish a letter '' @ digits m
          @ '' and unable to retry as a copy of the letter was not received'')"
  by (auto simp: retryOrReport_def split: prod.splits option.splits)

theorem default_receipt_policy_witness:
  "processPublishReceipts
     [Received \<lparr>PublishReceipt.LetterID = 7,
                FailedLetter = Some \<lparr>Letter.LetterID = 7, Body = [1],
                                      Envelope = newEnvelope ''orders'' ''new''\<rparr>,
                Success = False, Error = Some (FromCollaborator ''timeout'')\<rparr>]
     exampleService 1 =
     ([EvSendCentralErr (FmtErrorf ''failed to publish letter 7... retrying''),
       EvQueueLetter \<lparr>Letter.LetterID = 7, Body = [1],
                      Envelope = newEnvelope ''orders'' ''new''\<rparr>], Some 0)
   \<and> processPublishReceipts
     [Received \<lparr>PublishReceipt.LetterID = 7, FailedLetter = None,
                Success = False, Error = Some (FromCollaborator ''timeout'')\<rparr>]
     exampleService 1 =
     ([EvSendCentralErr (FmtErrorf
        ''failed to publish a letter 7 and unable to retry as a copy of the letter was not received'')],
      Some 0)
   \<and> processPublishReceipts
     [Received \<lparr>PublishReceipt.LetterID = 7, FailedLetter = None,
                Success = True, Error = None\<rparr>]
     exampleService 0 = ([], Some 0)
   \<and> processPublishReceipts
     [Received \<lparr>PublishReceipt.LetterID = 7, FailedLetter = None,
                Success = False, Error = Some (FromCollaborator ''timeout'')\<rparr>]
     exampleService 0 = ([], None)"
  using
    default_receipt_policy [where turns = "[]" and rs = exampleService and left = 0
      and receivers = 0
      and letter = "\<lparr>Letter.LetterID = 7, Body = [1], Envelope = newEnvelope ''orders'' ''new''\<rparr>"
      and receipt = "\<lparr>PublishReceipt.LetterID = 7,
                FailedLetter = Some \<lparr>Letter.LetterID = 7, Body = [1],
                                      Envelope = newEnvelope ''orders'' ''new''\<rparr>,
                Success = False, Error = Some (FromCollaborator ''timeout'')\<rparr>"]
    default_receipt_policy [where turns = "[]" and rs = exampleService and left = 0
      and receivers = 0
      and receipt = "\<lparr>PublishReceipt.LetterID = 7, FailedLetter = None,
                Success = False, Error = Some (FromCollaborator ''timeout'')\<rparr>"]
    default_receipt_policy [where turns = "[]" and rs = exampleService and left = 0
      and receivers = 0
      and receipt = "\<lparr>PublishReceipt.LetterID = 7, FailedLetter = None,
                Success = True, Error = None\<rparr>"]
  by (simp add: digits_7 retryOrReport_def)

text \<open>
  C4 as stated fails: when nobody receives from the central error stream, a receipt that
  reports failure and carries the failed letter leads to no requeue and no error on the
  stream; the loop waits on the send, which comes before the requeue.
\<close>

theorem failed_receipt_blocks_without_receiver:
  "processPublishReceipts
     [Received \<lparr>PublishReceipt.LetterID = 7,
                FailedLetter = Some \<lparr>Letter.LetterID = 7, Body = [1],
                                      Envelope = newEnvelope ''orders'' ''new''\<rparr>,
                Success = False, Error = Some (FromCollaborator ''timeout'')\<rparr>]
     exampleService 0 = ([], None)
   \<and> requeues (fst (processPublishReceipts
     [Received \<lparr>PublishReceipt.LetterID = 7,
                FailedLetter = Some \<lparr>Letter.LetterID = 7, Body = [1],
                                      Envelope = newEnvelope ''orders'' ''new''\<rparr>,
                Success = False, Error = Some (FromCollaborator ''timeout'')\<rparr>]
     exampleService 0)) = []
   \<and> centralErrs (fst (processPublishReceipts
     [Received \<lparr>PublishReceipt.LetterID = 7,
                FailedLetter = Some \<lparr>Letter.LetterID = 7, Body = [1],
                                      Envelope = newEnvelope ''orders'' ''new''\<rparr>,
                Success = False, Error = Some (FromCollaborator ''timeout'')\<rparr>]
     exampleService 0)) = []"
  by (simp add: retryOrReport_def)

section \<open>A custom receipt handler\<close>

text \<open>
  C5. When \<open>NewRabbitService\<close> is given a receipt handler and returns a service, the one
  receipt loop it starts is the one that calls the handler. Whatever that loop finds turn
  by turn, it calls the handler with every receipt it takes from the publisher, in order
  and unchanged, queues no letter and sends nothing to the central error stream.
\<close>

theorem custom_receipt_handler:
  assumes "NewRabbitService env config passphrase salt (Some handler) = (evs, Inr rs)"
  shows "receiptLoops evs = [GoInvokeProcessPublishReceipts handler]
       \<and> (\<forall>turns.
            handlerCalls (runReceiptLoop (GoInvokeProcessPublishReceipts handler) turns rs)
              = map (Pair handler) (drained turns)
            \<and> requeues (runReceiptLoop (GoInvokeProcessPublishReceipts handler) turns rs) = []
            \<and> centralErrs (runReceiptLoop (GoInvokeProcessPublishReceipts handler) turns rs) = [])"
proof -
  from NewRabbitService_Inr [OF assms] obtain evs1 rs1 evs2 where
    c: "createConsumers env (ConsumerConfigs config)
       \<lparr>Config = config, encryptionConfigured = False, consumers = [], shutdown = False,
        letterCount = 0, monitorSleepInterval = 200 * Millisecond\<rparr> = (evs1, None, rs1)"
    and k: "createHashKey env passphrase salt rs1 = (evs2, rs)"
    and evs: "evs = [EvNewConnectionPool (PoolConfig config), EvNewPublisherWithConfig config,
                EvNewTopologer] @ evs1 @ evs2 @ startMonitors (Some handler)"
    by blast
  have "receiptLoops evs = [GoInvokeProcessPublishReceipts handler]"
    using createConsumers_projections [OF c] createHashKey_loops [OF k]
    by (simp add: evs startMonitors_projections)
  then show ?thesis by (simp add: invoke_trace)
qed

theorem custom_receipt_handler_witness:
  "snd (NewRabbitService exampleEnv exampleConfig '''' '''' (Some 1))
     = Inr (exampleService\<lparr>letterCount := 0\<rparr>)
   \<and> receiptLoops (fst (NewRabbitService exampleEnv exampleConfig '''' '''' (Some 1)))
     = [GoInvokeProcessPublishReceipts 1]
   \<and> (runReceiptLoop (GoInvokeProcessPublishReceipts 1)
        [Received \<lparr>PublishReceipt.LetterID = 7, FailedLetter = None, Success = False,
                   Error = Some (FromCollaborator ''timeout'')\<rparr>,
         NothingReady,
         Received \<lparr>PublishReceipt.LetterID = 8, FailedLetter = None, Success = True,
                   Error = None\<rparr>,
         ShutdownSeen,
         Received \<lparr>PublishReceipt.LetterID = 9, FailedLetter = None, Success = True,
                   Error = None\<rparr>]
        (exampleService\<lparr>letterCount := 0\<rparr>))
     = [EvCallHandler 1 \<lparr>PublishReceipt.LetterID = 7, FailedLetter = None, Success = False,
                   Error = Some (FromCollaborator ''timeout'')\<rparr>,
        EvSleep 200000000,
        EvCallHandler 1 \<lparr>PublishReceipt.LetterID = 8, FailedLetter = None, Success = True,
                   Error = None\<rparr>]"
proof -
  have built: "snd (NewRabbitService exampleEnv exampleConfig '''' '''' (Some 1))
      = Inr (exampleService\<lparr>letterCount := 0\<rparr>)"
    by (simp add: NewRabbitService_example createHashKey_def Let_def)
  then have run: "NewRabbitService exampleEnv exampleConfig '''' '''' (Some 1) =
     (fst (NewRabbitService exampleEnv exampleConfig '''' '''' (Some 1)),
      Inr (exampleService\<lparr>letterCount := 0\<rparr>))"
    by (simp add: prod_eq_iff)
  note custom_receipt_handler [OF run]
  then have "receiptLoops (fst (NewRabbitService exampleEnv exampleConfig '''' '''' (Some 1)))
      = [GoInvokeProcessPublishReceipts 1]"
    by blast
  with built show ?thesis
    by (simp add: exampleService_def Millisecond_def)
qed

section \<open>The key derivation\<close>

text \<open>
  C6, as amended. When \<open>NewRabbitService\<close> returns a service, \<open>GetHashWithArgon\<close> has been
  called exactly once, with the passphrase, the salt, the configured time consideration,
  memory multiplier and threads and the length 32, if the encryption flag is set and the
  passphrase and the salt are not empty, and not at all otherwise; \<open>encryptionConfigured\<close>
  says which; the key is stored as \<open>Hashkey\<close> and otherwise the configured \<open>Hashkey\<close> stays.
  In both cases every call of the payload pipeline that \<open>Publish\<close> or
  \<open>PublishWithConfirmation\<close> makes is given the service's encryption configuration, whose
  \<open>Enabled\<close> flag is the configured one: the orchestrator does not switch encryption off
  for the pipeline.
\<close>

theorem key_derivation:
  assumes "NewRabbitService env config passphrase salt handler = (evs, Inr rs)"
  shows
    "derivations evs =
       (if Enabled (EncryptionConfig config) \<and> passphrase \<noteq> '''' \<and> salt \<noteq> ''''
        then [(passphrase, salt, TimeConsideration (EncryptionConfig config),
               MemoryMultiplier (EncryptionConfig config), Threads (EncryptionConfig config), 32)]
        else [])
     \<and> encryptionConfigured rs =
         (Enabled (EncryptionConfig config) \<and> passphrase \<noteq> '''' \<and> salt \<noteq> '''')
     \<and> EncryptionConfig (Config rs) =
         (if Enabled (EncryptionConfig config) \<and> passphrase \<noteq> '''' \<and> salt \<noteq> ''''
          then (EncryptionConfig config)
                 \<lparr>Hashkey := GetHashWithArgon env passphrase salt
                    (TimeConsideration (EncryptionConfig config))
                    (MemoryMultiplier (EncryptionConfig config))
                    (Threads (EncryptionConfig config)) 32\<rparr>
          else EncryptionConfig config)
     \<and> (\<forall>P call. \<forall>e \<in> set (pipelineEncryption (fst (doCall P call rs))).
            e = EncryptionConfig (Config rs) \<and> Enabled e = Enabled (EncryptionConfig config))"
proof -
  from NewRabbitService_Inr [OF assms] obtain evs1 rs1 evs2 where
    c: "createConsumers env (ConsumerConfigs config)
       \<lparr>Config = config, encryptionConfigured = False, consumers = [], shutdown = False,
        letterCount = 0, monitorSleepInterval = 200 * Millisecond\<rparr> = (evs1, None, rs1)"
    and k: "createHashKey env passphrase salt rs1 = (evs2, rs)"
    and evs: "evs = [EvNewConnectionPool (PoolConfig config), EvNewPublisherWithConfig config,
                EvNewTopologer] @ evs1 @ evs2 @ startMonitors handler"
    by blast
  from createConsumers_frame [OF c]
  have rs1: "Config rs1 = config" "encryptionConfigured rs1 = False" by simp_all
  let ?derive = "Enabled (EncryptionConfig config) \<and> passphrase \<noteq> '''' \<and> salt \<noteq> ''''"
  have d: "derivations evs2 =
       (if ?derive
        then [(passphrase, salt, TimeConsideration (EncryptionConfig config),
               MemoryMultiplier (EncryptionConfig config), Threads (EncryptionConfig config), 32)]
        else [])"
    using k rs1 by (auto simp: createHashKey_def Let_def split: if_splits)
  have 1: "derivations evs =
       (if ?derive
        then [(passphrase, salt, TimeConsideration (EncryptionConfig config),
               MemoryMultiplier (EncryptionConfig config), Threads (EncryptionConfig config), 32)]
        else [])"
    using createConsumers_projections [OF c] d
    by (simp add: evs startMonitors_projections)
  have 2: "encryptionConfigured rs = ?derive"
    using k rs1 by (auto simp: createHashKey_def Let_def split: if_splits)
  have 3: "EncryptionConfig (Config rs) =
         (if ?derive
          then (EncryptionConfig config)
                 \<lparr>Hashkey := GetHashWithArgon env passphrase salt
                    (TimeConsideration (EncryptionConfig config))
                    (MemoryMultiplier (EncryptionConfig config))
                    (Threads (EncryptionConfig config)) 32\<rparr>
          else EncryptionConfig config)"
    using k rs1 by (auto simp: createHashKey_def Let_def split: if_splits)
  then have flag: "Enabled (EncryptionConfig (Config rs)) = Enabled (EncryptionConfig config)"
    by (simp split: if_splits)
  have 4: "e = EncryptionConfig (Config rs)"
    if "e \<in> set (pipelineEncryption (fst (doCall P call rs)))" for P :: "pipeline" and call e
  proof (cases call)
    case (CallPublish input ex r w m)
    show ?thesis
    proof (cases "input = None \<or> (ex = '''' \<and> r = '''')")
      case True
      with that CallPublish show ?thesis by (simp add: Publish_invalid)
    next
      case False
      then obtain x where "input = Some x" and "\<not> (ex = '''' \<and> r = '''')" by auto
      with that CallPublish show ?thesis
        by (auto simp: Publish_valid Let_def createData_def split: sum.splits if_splits)
    qed
  next
    case (CallPublishWithConfirmation input ex r w m)
    show ?thesis
    proof (cases "input = None \<or> (ex = '''' \<and> r = '''')")
      case True
      with that CallPublishWithConfirmation show ?thesis
        by (simp add: PublishWithConfirmation_invalid)
    next
      case False
      then obtain x where "input = Some x" and "\<not> (ex = '''' \<and> r = '''')" by auto
      with that CallPublishWithConfirmation show ?thesis
        by (auto simp: PublishWithConfirmation_valid Let_def createData_def
            split: sum.splits if_splits)
    qed
  qed
  from 1 2 3 4 flag show ?thesis by blast
qed

theorem key_derivation_witness:
  "derivations (fst (NewRabbitService exampleEnv exampleConfig ''secret'' ''salt'' None))
     = [(''secret'', ''salt'', 1, 64, 2, 32)]
   \<and> snd (NewRabbitService exampleEnv exampleConfig ''secret'' ''salt'' None)
     = Inr (exampleService
         \<lparr>Config := exampleConfig\<lparr>EncryptionConfig := (EncryptionConfig exampleConfig)
                      \<lparr>Hashkey := replicate 32 7\<rparr>\<rparr>,
          encryptionConfigured := True, letterCount := 0\<rparr>)"
proof -
  let ?rs = "exampleService
         \<lparr>Config := exampleConfig\<lparr>EncryptionConfig := (EncryptionConfig exampleConfig)
                      \<lparr>Hashkey := replicate 32 7\<rparr>\<rparr>,
          encryptionConfigured := True, letterCount := 0\<rparr>"
  have built: "snd (NewRabbitService exampleEnv exampleConfig ''secret'' ''salt'' None) = Inr ?rs"
    by (simp add: NewRabbitService_example createHashKey_def Let_def)
      (simp add: exampleService_def exampleConfig_def exampleEnv_def)
  then have run: "NewRabbitService exampleEnv exampleConfig ''secret'' ''salt'' None =
     (fst (NewRabbitService exampleEnv exampleConfig ''secret'' ''salt'' None), Inr ?rs)"
    by (simp add: prod_eq_iff)
  note key_derivation [OF run]
  then have "derivations (fst (NewRabbitService exampleEnv exampleConfig ''secret'' ''salt'' None))
     = (if Enabled (EncryptionConfig exampleConfig) \<and> ''secret'' \<noteq> '''' \<and> ''salt'' \<noteq> ''''
        then [(''secret'', ''salt'', TimeConsideration (EncryptionConfig exampleConfig),
               MemoryMultiplier (EncryptionConfig exampleConfig),
               Threads (EncryptionConfig exampleConfig), 32)]
        else [])"
    by blast
  then have "derivations (fst (NewRabbitService exampleEnv exampleConfig ''secret'' ''salt'' None))
     = [(''secret'', ''salt'', 1, 64, 2, 32)]"
    by (simp add: exampleConfig_def)
  with built show ?thesis by blast
qed

text \<open>
  C6 as stated fails: constructed with the encryption flag set, a passphrase and an
  empty salt, the service derives no key and \<open>encryptionConfigured\<close> stays false, yet
  \<open>Publish\<close> hands the pipeline an encryption configuration whose \<open>Enabled\<close> flag is set
  (and whose \<open>Hashkey\<close> is empty). \<open>encryptionConfigured\<close> is read nowhere.
\<close>

theorem encryption_flag_reaches_pipeline:
  "snd (NewRabbitService exampleEnv exampleConfig ''secret'' '''' None)
     = Inr (exampleService\<lparr>letterCount := 0\<rparr>)
   \<and> derivations (fst (NewRabbitService exampleEnv exampleConfig ''secret'' '''' None)) = []
   \<and> \<not> encryptionConfigured (exampleService\<lparr>letterCount := 0\<rparr>)
   \<and> fst (Publish echoPipeline (Some [104, 105]) ''orders'' ''new'' False ''''
           (exampleService\<lparr>letterCount := 0\<rparr>))
     = [EvCreatePayload [104, 105] ''gzip''
          \<lparr>Enabled = True, Hashkey = [], TimeConsideration = 1, MemoryMultiplier = 64,
           Threads = 2\<rparr>,
        EvPublish \<lparr>Letter.LetterID = 0, Body = [104, 105],
                   Envelope = newEnvelope ''orders'' ''new''\<rparr>]
   \<and> map Enabled (pipelineEncryption
         (fst (Publish echoPipeline (Some [104, 105]) ''orders'' ''new'' False ''''
                 (exampleService\<lparr>letterCount := 0\<rparr>)))) = [True]"
proof -
  have built: "snd (NewRabbitService exampleEnv exampleConfig ''secret'' '''' None)
     = Inr (exampleService\<lparr>letterCount := 0\<rparr>)"
    by (simp add: NewRabbitService_example createHashKey_def Let_def)
  have none: "derivations (fst (NewRabbitService exampleEnv exampleConfig ''secret'' '''' None)) = []"
    by (simp add: NewRabbitService_example createHashKey_def Let_def startMonitors_projections)
  have off: "\<not> encryptionConfigured (exampleService\<lparr>letterCount := 0\<rparr>)"
    by (simp add: exampleService_def)
  have trace: "fst (Publish echoPipeline (Some [104, 105]) ''orders'' ''new'' False ''''
           (exampleService\<lparr>letterCount := 0\<rparr>))
     = [EvCreatePayload [104, 105] ''gzip''
          \<lparr>Enabled = True, Hashkey = [], TimeConsideration = 1, MemoryMultiplier = 64,
           Threads = 2\<rparr>,
        EvPublish \<lparr>Letter.LetterID = 0, Body = [104, 105],
                   Envelope = newEnvelope ''orders'' ''new''\<rparr>]"
    by (simp add: Publish_def Let_def createData_def echoPipeline_def exampleService_def
        exampleConfig_def atomic_LoadUint64_def atomic_AddUint64_def)
  have "map Enabled (pipelineEncryption
         (fst (Publish echoPipeline (Some [104, 105]) ''orders'' ''new'' False ''''
                 (exampleService\<lparr>letterCount := 0\<rparr>)))) = [True]"
    by (simp add: trace)
  with built none off trace show ?thesis by blast
qed

section \<open>The order of Shutdown\<close>




section \<open>Acknowledge, Nack and Reject\<close>

text \<open>
  C9. On a message that is not ackable or has no channel, \<open>Acknowledge\<close>, \<open>Nack\<close> and
  \<open>Reject\<close> return an error of their own and make no call on the channel. None of them
  changes the message, so a second invocation on an ackable message with a channel makes
  the same call on the channel again and returns whatever the channel answers: nothing
  is noticed locally.
\<close>

theorem ack_checks:
  "(\<not> IsAckable msg \<or> amqpChan msg = None \<longrightarrow>
      fst (Acknowledge broker msg) = []
      \<and> (\<exists>text. fst (snd (Acknowledge broker msg)) = Some (ErrorsNew text))
      \<and> fst (Nack broker requeue msg) = []
      \<and> (\<exists>text. fst (snd (Nack broker requeue msg)) = Some (ErrorsNew text))
      \<and> fst (Reject broker requeue msg) = []
      \<and> (\<exists>text. fst (snd (Reject broker requeue msg)) = Some (ErrorsNew text)))
   \<and> snd (snd (Acknowledge broker msg)) = msg
   \<and> snd (snd (Nack broker requeue msg)) = msg
   \<and> snd (snd (Reject broker requeue msg)) = msg
   \<and> (IsAckable msg \<and> amqpChan msg = Some chan \<longrightarrow>
        fst (Acknowledge again (snd (snd (Acknowledge broker msg))))
          = [ChanAck chan (deliveryTag msg) False]
      \<and> fst (snd (Acknowledge again (snd (snd (Acknowledge broker msg)))))
          = map_option FromCollaborator (again (ChanAck chan (deliveryTag msg) False))
      \<and> fst (Nack again requeue (snd (snd (Nack broker requeue msg))))
          = [ChanNack chan (deliveryTag msg) False requeue]
      \<and> fst (snd (Nack again requeue (snd (snd (Nack broker requeue msg)))))
          = map_option FromCollaborator (again (ChanNack chan (deliveryTag msg) False requeue))
      \<and> fst (Reject again requeue (snd (snd (Reject broker requeue msg))))
          = [ChanReject chan (deliveryTag msg) requeue]
      \<and> fst (snd (Reject again requeue (snd (snd (Reject broker requeue msg)))))
          = map_option FromCollaborator (again (ChanReject chan (deliveryTag msg) requeue)))"
  by (auto simp: Acknowledge_def Nack_def Reject_def split: option.splits)

theorem ack_checks_witness:
  "Acknowledge (\<lambda>call. None)
     \<lparr>IsAckable = False, ReceivedMessage.Body = [1], deliveryTag = 9, amqpChan = Some 3,
      CorrelationId = ''c''\<rparr>
     = ([], Some (ErrorsNew ''can't acknowledge, not an ackable message''),
        \<lparr>IsAckable = False, ReceivedMessage.Body = [1], deliveryTag = 9, amqpChan = Some 3,
         CorrelationId = ''c''\<rparr>)
   \<and> fst (Nack (\<lambda>call. None) True
        \<lparr>IsAckable = True, ReceivedMessage.Body = [1], deliveryTag = 9, amqpChan = None,
         CorrelationId = ''c''\<rparr>) = []
   \<and> fst (snd (Reject (\<lambda>call. None) True
        \<lparr>IsAckable = True, ReceivedMessage.Body = [1], deliveryTag = 9, amqpChan = None,
         CorrelationId = ''c''\<rparr>)) = Some (ErrorsNew ''can't reject, internal channel is nil'')
   \<and> Acknowledge (\<lambda>call. Some ''PRECONDITION_FAILED - unknown delivery tag 9'')
        (snd (snd (Acknowledge (\<lambda>call. None)
          \<lparr>IsAckable = True, ReceivedMessage.Body = [1], deliveryTag = 9, amqpChan = Some 3,
           CorrelationId = ''c''\<rparr>)))
     = ([ChanAck 3 9 False],
        Some (FromCollaborator ''PRECONDITION_FAILED - unknown delivery tag 9''),
        \<lparr>IsAckable = True, ReceivedMessage.Body = [1], deliveryTag = 9, amqpChan = Some 3,
         CorrelationId = ''c''\<rparr>)"
  using
    ack_checks [where broker = "\<lambda>call. None" and requeue = True
      and msg = "\<lparr>IsAckable = False, ReceivedMessage.Body = [1], deliveryTag = 9,
                  amqpChan = Some 3, CorrelationId = ''c''\<rparr>"]
    ack_checks [where broker = "\<lambda>call. None" and requeue = True
      and msg = "\<lparr>IsAckable = True, ReceivedMessage.Body = [1], deliveryTag = 9,
                  amqpChan = None, CorrelationId = ''c''\<rparr>"]
    ack_checks [where broker = "\<lambda>call. None" and requeue = True and chan = 3
      and again = "\<lambda>call. Some ''PRECONDITION_FAILED - unknown delivery tag 9''"
      and msg = "\<lparr>IsAckable = True, ReceivedMessage.Body = [1], deliveryTag = 9,
                  amqpChan = Some 3, CorrelationId = ''c''\<rparr>"]
  by (simp add: Acknowledge_def Nack_def Reject_def)

section \<open>Two callers at once\<close>

text \<open>
  C1. The reservation of a LetterID is two atomic operations, a load and an add. When
  two callers both load before either adds, both get the same LetterID: from a counter
  at 5, both calls are assigned 5, and the counter ends at 7.
\<close>

theorem concurrent_callers_same_letter_id:
  "interleave [0, 1, 0, 1]
     (exampleService,
      [\<lparr>position = AtLoad, assigned = []\<rparr>, \<lparr>position = AtLoad, assigned = []\<rparr>])
   = (exampleService\<lparr>letterCount := 7\<rparr>,
      [\<lparr>position = AtLoad, assigned = [5]\<rparr>, \<lparr>position = AtLoad, assigned = [5]\<rparr>])"
  by (simp add: interleave_def stepCaller_def atomic_LoadUint64_def atomic_AddUint64_def
      exampleService_def)

section \<open>The LetterIDs of one caller\<close>

text \<open>
  However the atomic operations of any number of callers interleave, the LetterIDs one
  caller gets are strictly increasing in the order of its calls, as long as the counter
  does not wrap round.
\<close>

theorem each_caller_increasing_ids:
  assumes "unat (letterCount rs) + length schedule < 2 ^ 64"
    and "c \<in> set (snd (interleave schedule
                 (rs, replicate n \<lparr>position = AtLoad, assigned = []\<rparr>)))"
  shows "sorted_wrt (<) (assigned c)"
proof -
  have "callersOrdered (rs, replicate n \<lparr>position = AtLoad, assigned = []\<rparr>)"
    by (simp add: callersOrdered_def)
  with assms(1) have "callersOrdered (interleave schedule
      (rs, replicate n \<lparr>position = AtLoad, assigned = []\<rparr>))"
    using interleave_ordered
      [of "(rs, replicate n \<lparr>position = AtLoad, assigned = []\<rparr>)" schedule]
    by simp
  with assms(2) have "sorted_wrt (<) (map unat (assigned c))"
    by (simp add: callersOrdered_def)
  moreover have "(<) = (\<lambda>v w :: u64. unat v < unat w)"
    by (auto simp: fun_eq_iff word_less_nat_alt)
  ultimately show ?thesis
    by (simp add: sorted_wrt_map)
qed

theorem each_caller_increasing_ids_witness:
  "interleave [0, 1, 0, 1, 1, 0, 1, 0] (exampleService, replicate 2 \<lparr>position = AtLoad, assigned = []\<rparr>)
     = (exampleService\<lparr>letterCount := 9\<rparr>,
        [\<lparr>position = AtLoad, assigned = [5, 7]\<rparr>, \<lparr>position = AtLoad, assigned = [5, 7]\<rparr>])
   \<and> sorted_wrt (<) [5, 7 :: u64]"
proof -
  have run: "interleave [0, 1, 0, 1, 1, 0, 1, 0]
       (exampleService, replicate 2 \<lparr>position = AtLoad, assigned = []\<rparr>)
     = (exampleService\<lparr>letterCount := 9\<rparr>,
        [\<lparr>position = AtLoad, assigned = [5, 7]\<rparr>, \<lparr>position = AtLoad, assigned = [5, 7]\<rparr>])"
    by (simp add: interleave_def stepCaller_def atomic_LoadUint64_def atomic_AddUint64_def
        exampleService_def numeral_2_eq_2)
  have room: "unat (letterCount exampleService) + length [0, 1, 0, 1, 1, 0, 1, 0 :: nat] < 2 ^ 64"
    by (simp add: exampleService_def)
  have "\<lparr>position = AtLoad, assigned = [5, 7]\<rparr>
      \<in> set (snd (interleave [0, 1, 0, 1, 1, 0, 1, 0]
                 (exampleService, replicate 2 \<lparr>position = AtLoad, assigned = []\<rparr>)))"
    unfolding run by simp
  from each_caller_increasing_ids [OF room this] have "sorted_wrt (<) [5, 7 :: u64]" by simp
  with run show ?thesis by blast
qed

section \<open>One caller after the other\<close>

text \<open>
  When the calls of \<open>Publish\<close> and \<open>PublishWithConfirmation\<close> do not overlap, the letters
  handed to the publisher have pairwise distinct LetterIDs, as long as the calls are at
  most \<open>2 ^ 64\<close>.
\<close>

theorem sequential_calls_distinct_ids:
  assumes "length cs \<le> 2 ^ 64"
  shows "distinct (map Letter.LetterID (handedLetters (fst (doCalls P cs rs))))"
proof -
  from doCalls_offsets [of P cs rs] obtain ks where
    ids: "map Letter.LetterID (handedLetters (fst (doCalls P cs rs)))
           = map (\<lambda>k. letterCount rs + of_nat k) ks"
    and srt: "sorted_wrt (<) ks" and bnd: "\<forall>k \<in> set ks. k < length cs"
    by blast
  from srt have "distinct ks" by (simp add: strict_sorted_iff)
  moreover have "inj_on (\<lambda>k. letterCount rs + (of_nat k :: u64)) (set ks)"
  proof (rule inj_onI)
    fix j k assume "j \<in> set ks" "k \<in> set ks"
      and "letterCount rs + (of_nat j :: u64) = letterCount rs + of_nat k"
    with bnd assms have "j < 2 ^ 64" "k < 2 ^ 64" "(of_nat j :: u64) = of_nat k"
      by (auto simp: less_le_trans)
    then show "j = k" by (rule of_nat_inj_u64)
  qed
  ultimately show ?thesis by (simp add: ids distinct_map)
qed

theorem sequential_calls_distinct_ids_witness:
  "map Letter.LetterID (handedLetters (fst (doCalls echoPipeline
      [CallPublish (Some [1]) ''orders'' ''new'' False '''',
       CallPublish None ''orders'' ''new'' False '''',
       CallPublishWithConfirmation (Some [2]) '''' ''new'' True ''meta'']
      exampleService))) = [5, 6]
   \<and> distinct (map Letter.LetterID (handedLetters (fst (doCalls echoPipeline
      [CallPublish (Some [1]) ''orders'' ''new'' False '''',
       CallPublish None ''orders'' ''new'' False '''',
       CallPublishWithConfirmation (Some [2]) '''' ''new'' True ''meta'']
      exampleService))))"
proof -
  have short: "length [CallPublish (Some [1]) ''orders'' ''new'' False '''',
       CallPublish None ''orders'' ''new'' False '''',
       CallPublishWithConfirmation (Some [2]) '''' ''new'' True ''meta''] \<le> 2 ^ 64"
    by simp
  have "map Letter.LetterID (handedLetters (fst (doCalls echoPipeline
      [CallPublish (Some [1]) ''orders'' ''new'' False '''',
       CallPublish None ''orders'' ''new'' False '''',
       CallPublishWithConfirmation (Some [2]) '''' ''new'' True ''meta'']
      exampleService))) = [5, 6]"
    by (simp add: Publish_def PublishWithConfirmation_def Let_def createData_def echoPipeline_def
        exampleService_def exampleConfig_def atomic_LoadUint64_def atomic_AddUint64_def
        invalidPublish_def)
  with sequential_calls_distinct_ids [OF short, of echoPipeline exampleService]
  show ?thesis by blast
qed

text \<open>
  When the calls do not overlap and the counter does not wrap round, the LetterIDs of the
  letters handed to the publisher are strictly increasing.
\<close>

theorem sequential_calls_increasing_ids:
  assumes "unat (letterCount rs) + length cs \<le> 2 ^ 64"
  shows "sorted_wrt (<) (map Letter.LetterID (handedLetters (fst (doCalls P cs rs))))"
proof -
  from doCalls_offsets [of P cs rs] obtain ks where
    ids: "map Letter.LetterID (handedLetters (fst (doCalls P cs rs)))
           = map (\<lambda>k. letterCount rs + of_nat k) ks"
    and srt: "sorted_wrt (<) ks" and bnd: "\<forall>k \<in> set ks. k < length cs"
    by blast
  have "letterCount rs + of_nat j < letterCount rs + of_nat k"
    if "j \<in> set ks" "k \<in> set ks" "j < k" for j k
  proof -
    from that bnd assms have "unat (letterCount rs) + j < 2 ^ 64"
      and "unat (letterCount rs) + k < 2 ^ 64" by auto
    then have "unat (letterCount rs + of_nat j) = unat (letterCount rs) + j"
      and "unat (letterCount rs + of_nat k) = unat (letterCount rs) + k"
      by (simp_all add: unat_offset)
    with that(3) show ?thesis by (simp add: word_less_nat_alt)
  qed
  with srt have "sorted_wrt (\<lambda>j k. letterCount rs + of_nat j < letterCount rs + of_nat k) ks"
    by (rule sorted_wrt_mono_rel [rotated]) 
  then show ?thesis by (simp add: ids sorted_wrt_map)
qed

theorem sequential_calls_increasing_ids_witness:
  "sorted_wrt (<) (map Letter.LetterID (handedLetters (fst (doCalls echoPipeline
      [CallPublish (Some [1]) ''orders'' ''new'' False '''',
       CallPublishWithConfirmation (Some [2]) '''' ''new'' True ''meta'']
      exampleService))))"
proof -
  have "unat (letterCount exampleService)
      + length [CallPublish (Some [1]) ''orders'' ''new'' False '''',
       CallPublishWithConfirmation (Some [2]) '''' ''new'' True ''meta''] \<le> 2 ^ 64"
    by (simp add: exampleService_def)
  then show ?thesis by (rule sequential_calls_increasing_ids)
qed

section \<open>Without a receipt handler\<close>

text \<open>
  When \<open>NewRabbitService\<close> is given no receipt handler and returns a service, the one
  receipt loop it starts is the default one, \<open>processPublishReceipts\<close>.
\<close>

theorem default_receipt_loop:
  assumes "NewRabbitService env config passphrase salt None = (evs, Inr rs)"
  shows "receiptLoops evs = [GoProcessPublishReceipts]"
proof -
  from NewRabbitService_Inr [OF assms] obtain evs1 rs1 evs2 where
    c: "createConsumers env (ConsumerConfigs config)
       \<lparr>Config = config, encryptionConfigured = False, consumers = [], shutdown = False,
        letterCount = 0, monitorSleepInterval = 200 * Millisecond\<rparr> = (evs1, None, rs1)"
    and k: "createHashKey env passphrase salt rs1 = (evs2, rs)"
    and evs: "evs = [EvNewConnectionPool (PoolConfig config), EvNewPublisherWithConfig config,
                EvNewTopologer] @ evs1 @ evs2 @ startMonitors None"
    by blast
  show ?thesis
    using createConsumers_projections [OF c] createHashKey_loops [OF k]
    by (simp add: evs startMonitors_projections)
qed

theorem default_receipt_loop_witness:
  "receiptLoops (fst (NewRabbitService exampleEnv exampleConfig '''' '''' None))
     = [GoProcessPublishReceipts]"
proof -
  have "snd (NewRabbitService exampleEnv exampleConfig '''' '''' None)
      = Inr (exampleService\<lparr>letterCount := 0\<rparr>)"
    by (simp add: NewRabbitService_example createHashKey_def Let_def)
  then have "NewRabbitService exampleEnv exampleConfig '''' '''' None =
     (fst (NewRabbitService exampleEnv exampleConfig '''' '''' None),
      Inr (exampleService\<lparr>letterCount := 0\<rparr>))"
    by (simp add: prod_eq_iff)
  then show ?thesis by (rule default_receipt_loop)
qed

end
